theory Spec2Isabelle
  imports Complex_Main "HOL-Library.Product_Lexorder"
begin

section \<open>Data model\<close>

text \<open>
  Timestamps are JavaScript \<^verbatim>\<open>Date\<close> values, read as milliseconds since the epoch.
  Object ids are natural numbers. The click counters are non-negative integer-valued
  Numbers (the schema gives both \<^verbatim>\<open>min: 0\<close> and \<^verbatim>\<open>default: 0\<close>), far below
  \<open>2 ^ 53\<close>, where JavaScript addition of 1 is exact. Strings are lists of 8-bit
  characters; every string the alias rules accept is ASCII.
\<close>

type_synonym time = int
type_synonym oid = nat

text \<open>
  A document of the URL collection (the fields of \<^verbatim>\<open>urlSchema\<close> that the service
  reads or writes; QR code, fetched metadata, tags, password, geo restrictions and
  variants play no part in the operations below).
\<close>

record url =
  url_id :: oid
  originalUrl :: string
  shortCode :: string
  customAlias :: "string option"
  title :: "string option"
  description :: "string option"
  userId :: "oid option"
  isActive :: bool
  expiresAt :: "time option"
  clickCount :: nat
  uniqueClicks :: nat
  lastClickedAt :: "time option"
  createdAt :: time

section \<open>Virtual fields and instance methods of the URL model\<close>

text \<open>
  A JavaScript Number is a double. A division or multiplication returns its exact
  result rounded to the nearest double, halves going to the even significand. \<open>fl64\<close>
  is that rounding for numbers in the normal range, which holds every value computed
  here (the counters are below \<open>2 ^ 53\<close>): the significand has 53 bits, so a number
  with \<open>pow2 e \<le> \<bar>x\<bar> < pow2 (e + 1)\<close> is rounded to a multiple of \<open>pow2 (e - 52)\<close>.
\<close>

definition pow2 :: "int \<Rightarrow> real" where
  "pow2 e = (if 0 \<le> e then 2 ^ nat e else 1 / 2 ^ nat (- e))"

definition round_half_even :: "real \<Rightarrow> int" where
  "round_half_even y =
     (let f = \<lfloor>y\<rfloor>
      in if y - real_of_int f < 1 / 2 then f
         else if 1 / 2 < y - real_of_int f then f + 1
         else if even f then f else f + 1)"

definition exponent :: "real \<Rightarrow> int" where
  "exponent x = \<lfloor>log 2 \<bar>x\<bar>\<rfloor>"

definition fl64 :: "real \<Rightarrow> real" where
  "fl64 x =
     (if x = 0 then 0
      else sgn x * real_of_int (round_half_even (\<bar>x\<bar> * pow2 (52 - exponent x)))
             * pow2 (exponent x - 52))"

text \<open>
  The division of two finite Numbers. With a divisor 0 the result is \<^verbatim>\<open>NaN\<close> or an
  infinity, which is \<open>None\<close> here.
\<close>

definition js_div :: "real \<Rightarrow> real \<Rightarrow> real option" where
  "js_div x y = (if y = 0 then None else Some (fl64 (x / y)))"

text \<open>
  \<^verbatim>\<open>Math.round(x)\<close> is the integer nearest to \<open>x\<close>, halves going up.
\<close>

definition math_round :: "real \<Rightarrow> int" where
  "math_round x = \<lfloor>x + 1 / 2\<rfloor>"

text \<open>
  \<^verbatim>\<open>
  urlSchema.virtual("clickThroughRate").get(function () {
    if (this.clickCount === 0) return 0;
    return Math.round((this.uniqueClicks / this.clickCount) * 100 * 100) / 100;
  });
  \<close>
  The result is \<open>None\<close> when it is not a finite Number.
\<close>

definition clickThroughRate :: "url \<Rightarrow> real option" where
  "clickThroughRate u =
     (if clickCount u = 0 then Some 0
      else (case js_div (real (uniqueClicks u)) (real (clickCount u)) of
              None \<Rightarrow> None
            | Some q \<Rightarrow> js_div (real_of_int (math_round (fl64 (fl64 (q * 100) * 100)))) 100))"

text \<open>
  \<^verbatim>\<open>
  urlSchema.virtual("isExpired").get(function () {
    return this.expiresAt && this.expiresAt < new Date();
  });
  \<close>
  A \<^verbatim>\<open>Date\<close> object is truthy, so the conjunction is false exactly for \<^verbatim>\<open>null\<close>.
\<close>

definition isExpired :: "time \<Rightarrow> url \<Rightarrow> bool" where
  "isExpired now u = (case expiresAt u of None \<Rightarrow> False | Some t \<Rightarrow> t < now)"

text \<open>
  \<^verbatim>\<open>
  urlSchema.methods.recordClick = async function (clickData = {}) {
    this.clickCount += 1;
    this.lastClickedAt = new Date();
    const { isUnique = false } = clickData;
    if (isUnique) { this.uniqueClicks += 1; }
    return await this.save();
  };
  \<close>
\<close>

definition recordClick :: "time \<Rightarrow> bool \<Rightarrow> url \<Rightarrow> url" where
  "recordClick now isUnique u =
     (let u1 = u\<lparr>clickCount := clickCount u + 1, lastClickedAt := Some now\<rparr>
      in if isUnique then u1\<lparr>uniqueClicks := uniqueClicks u1 + 1\<rparr> else u1)"

text \<open>
  The view increment of \<^verbatim>\<open>getUrlByShortCode(code, true)\<close>:
  \<^verbatim>\<open>url.clickCount += 1; await url.save();\<close>
\<close>

definition incrementView :: "url \<Rightarrow> url" where
  "incrementView u = u\<lparr>clickCount := clickCount u + 1\<rparr>"

text \<open>The operations that touch the counters of one Link, as they change the document in memory.\<close>

datatype counter_op = RecordClick time bool | IncrementView

fun apply_counter_op :: "url \<Rightarrow> counter_op \<Rightarrow> url" where
  "apply_counter_op u (RecordClick now isUnique) = recordClick now isUnique u"
| "apply_counter_op u IncrementView = incrementView u"

text \<open>
  Both operations work on a document that was loaded earlier and end with
  \<^verbatim>\<open>doc.save()\<close>, which writes the paths the operation has modified, with the values
  of the document in memory: \<open>clickCount\<close>, and for a recorded click \<open>lastClickedAt\<close>
  and, when the click is unique, \<open>uniqueClicks\<close>. The schema sets no
  \<^verbatim>\<open>optimisticConcurrency\<close>, so the save goes through whatever the stored document
  has become since the load. \<open>save_modified x c u\<close> is the stored document \<open>u\<close> after
  the save of the copy \<open>c\<close> on which \<open>x\<close> has been performed.
\<close>

fun save_modified :: "counter_op \<Rightarrow> url \<Rightarrow> url \<Rightarrow> url" where
  "save_modified (RecordClick now isUnique) c u =
     u\<lparr>clickCount := clickCount c, lastClickedAt := lastClickedAt c,
       uniqueClicks := (if isUnique then uniqueClicks c else uniqueClicks u)\<rparr>"
| "save_modified IncrementView c u = u\<lparr>clickCount := clickCount c\<rparr>"

text \<open>
  One Link over time: the stored document and the copies that requests have loaded
  and still hold. \<open>Load\<close> is the \<^verbatim>\<open>findOne\<close> of a request; \<open>On k x\<close> performs the
  operation \<open>x\<close> on the \<open>k\<close>-th copy and saves it (nothing happens when there is no such
  copy).
\<close>

record linkState =
  stored :: url
  copies :: "url list"

datatype request = Load | On nat counter_op

fun step :: "linkState \<Rightarrow> request \<Rightarrow> linkState" where
  "step s Load = s\<lparr>copies := copies s @ [stored s]\<rparr>"
| "step s (On k x) =
     (if k < length (copies s)
      then \<lparr> stored = save_modified x (apply_counter_op (copies s ! k) x) (stored s),
             copies = (copies s)[k := apply_counter_op (copies s ! k) x] \<rparr>
      else s)"

definition run_requests :: "linkState \<Rightarrow> request list \<Rightarrow> linkState" where
  "run_requests s rs = foldl step s rs"



section \<open>Strings, short codes and aliases\<close>

definition is_alphanum :: "char \<Rightarrow> bool" where
  "is_alphanum c =
     (let n = (of_char c :: nat)
      in (65 \<le> n \<and> n \<le> 90) \<or> (97 \<le> n \<and> n \<le> 122) \<or> (48 \<le> n \<and> n \<le> 57))"

definition is_code_char :: "char \<Rightarrow> bool" where
  "is_code_char c = (is_alphanum c \<or> c = CHR ''_'' \<or> c = CHR ''-'')"

text \<open>The regular expression \<^verbatim>\<open>/^[A-Za-z0-9_-]+$/\<close> of the generator and of the schema.\<close>

definition matches_code_regex :: "string \<Rightarrow> bool" where
  "matches_code_regex s = (s \<noteq> [] \<and> list_all is_code_char s)"

text \<open>
  \<^verbatim>\<open>
  export function validateShortCode(code) {
    const errors = [];
    if (!code || code.length === 0) {
      errors.push("Short code is required");
      return { isValid: false, errors };
    }
    if (code.length < 3) errors.push("Short code is too short (min 3 characters)");
    if (code.length > 30) errors.push("Short code is too long (max 30 characters)");
    if (!/^[A-Za-z0-9_-]+$/.test(code)) errors.push("Short code contains invalid characters");
    return { isValid: errors.length === 0, errors };
  }
  \<close>
  The result is the pair \<open>(isValid, errors)\<close>.
\<close>

definition validateShortCode :: "string \<Rightarrow> bool \<times> string list" where
  "validateShortCode code =
     (if code = [] then (False, [''Short code is required''])
      else
        (let errors =
               (if length code < 3 then [''Short code is too short (min 3 characters)''] else [])
             @ (if length code > 30 then [''Short code is too long (max 30 characters)''] else [])
             @ (if \<not> matches_code_regex code then [''Short code contains invalid characters''] else [])
         in (errors = [], errors)))"

text \<open>
  The request schema of \<^verbatim>\<open>POST /api/urls\<close>, run by the \<^verbatim>\<open>validate\<close> middleware before
  the controller:
  \<^verbatim>\<open>customAlias: Joi.string().alphanum().min(3).max(30).optional()\<close>.
  \<^verbatim>\<open>None\<close> is an absent field; \<^verbatim>\<open>Joi.string()\<close> refuses the empty string.
\<close>

definition joi_customAlias :: "string option \<Rightarrow> bool" where
  "joi_customAlias a =
     (case a of
        None \<Rightarrow> True
      | Some s \<Rightarrow> s \<noteq> [] \<and> list_all is_alphanum s \<and> 3 \<le> length s \<and> length s \<le> 30)"

text \<open>
  The validators of the schema paths \<^verbatim>\<open>shortCode\<close> and \<^verbatim>\<open>customAlias\<close>
  (\<^verbatim>\<open>minLength 3\<close>, \<^verbatim>\<open>maxLength 30\<close>, \<^verbatim>\<open>match /^[A-Za-z0-9_-]+$/\<close>).
\<close>

definition schema_code_ok :: "string \<Rightarrow> bool" where
  "schema_code_ok s = (3 \<le> length s \<and> length s \<le> 30 \<and> matches_code_regex s)"

text \<open>\<^verbatim>\<open>String.prototype.trim\<close> on 8-bit strings.\<close>

definition is_js_space :: "char \<Rightarrow> bool" where
  "is_js_space c = ((of_char c :: nat) \<in> set [9, 10, 11, 12, 13, 32, 160])"

definition js_trim :: "string \<Rightarrow> string" where
  "js_trim s = rev (dropWhile is_js_space (rev (dropWhile is_js_space s)))"

text \<open>\<^verbatim>\<open>title?.trim() || null\<close>\<close>

definition trim_or_null :: "string option \<Rightarrow> string option" where
  "trim_or_null t =
     (case t of
        None \<Rightarrow> None
      | Some x \<Rightarrow> if js_trim x = [] then None else Some (js_trim x))"

section \<open>Environment and store\<close>

text \<open>
  What the service takes from outside itself: the two settings of \<^verbatim>\<open>config\<close> it reads,
  the URL parser of Node (\<open>urlProtocol e x\<close> is the \<^verbatim>\<open>protocol\<close> of \<^verbatim>\<open>new URL(x)\<close>, and
  \<open>None\<close> when the constructor throws), and the random generator
  (\<open>generateShortCode e k\<close> is the value of the \<open>k\<close>-th call of \<^verbatim>\<open>generateShortCode()\<close>).
\<close>

record env =
  maxUrlLength :: nat
  allowCustomAlias :: bool
  urlProtocol :: "string \<Rightarrow> string option"
  generateShortCode :: "nat \<Rightarrow> string"

text \<open>
  The database: the URL collection in insertion order, the \<^verbatim>\<open>urlCount\<close> field of every
  User document, the next fresh object id, and the number of calls the random generator
  has served.
\<close>

record store =
  urls :: "url list"
  users :: "(oid \<times> int) list"
  nextId :: oid
  draws :: nat

text \<open>\<^verbatim>\<open>User.findByIdAndUpdate(userId, { $inc: { urlCount: n } })\<close>\<close>

definition inc_urlCount :: "oid \<Rightarrow> int \<Rightarrow> (oid \<times> int) list \<Rightarrow> (oid \<times> int) list" where
  "inc_urlCount uid n us = map (\<lambda>(i, c). if i = uid then (i, c + n) else (i, c)) us"

definition urlCount :: "store \<Rightarrow> oid \<Rightarrow> int option" where
  "urlCount s uid = map_of (users s) uid"

text \<open>The filter \<^verbatim>\<open>{ $or: [{ shortCode: c }, { customAlias: c }] }\<close>.\<close>

definition code_or_alias :: "string \<Rightarrow> url \<Rightarrow> bool" where
  "code_or_alias c u = (shortCode u = c \<or> customAlias u = Some c)"

text \<open>\<^verbatim>\<open>doc.save()\<close> of a loaded document writes it back under its id.\<close>

definition save_doc :: "url \<Rightarrow> url list \<Rightarrow> url list" where
  "save_doc u us = map (\<lambda>v. if url_id v = url_id u then u else v) us"

text \<open>\<^verbatim>\<open>findOneAndDelete\<close> removes the first document that matches.\<close>

fun delete_first :: "(url \<Rightarrow> bool) \<Rightarrow> url list \<Rightarrow> url list" where
  "delete_first P [] = []"
| "delete_first P (u # us) = (if P u then us else u # delete_first P us)"

section \<open>The URL service\<close>

datatype error =
    InvalidUrlFormat
  | UrlTooLong nat
  | UrlLimitReached nat
  | CustomAliasNotAllowed
  | InvalidCustomAlias "string list"
  | CustomAliasTaken
  | ShortCodeExhausted
  | ValidationFailed
  | DuplicateKey
  | NotFoundOrNoPermission
  | UrlsDataRequired
  | TooManyUrls nat

text \<open>
  The argument of \<^verbatim>\<open>createUrl\<close>, after \<^verbatim>\<open>{ ...urlData, ...options }\<close>. An absent field
  is \<open>None\<close>; \<^verbatim>\<open>expiresIn\<close> counts whole days. The flags \<^verbatim>\<open>generateQR\<close> and
  \<^verbatim>\<open>fetchMetadata\<close> are only echoed in the result and are left out, as are the tags.
\<close>

record urlData =
  d_originalUrl :: string
  d_customAlias :: "string option"
  d_title :: "string option"
  d_description :: "string option"
  d_userId :: "oid option"
  d_expiresIn :: "int option"

record createResult =
  res_url :: url
  isNew :: bool

text \<open>
  \<^verbatim>\<open>
  _isValidUrl(url) {
    if (!url || typeof url !== "string") return false;
    try {
      const urlObject = new NodeURL(url);
      return ["http:", "https:"].includes(urlObject.protocol);
    } catch (error) { return false; }
  }
  \<close>
\<close>

definition isValidUrl :: "env \<Rightarrow> string \<Rightarrow> bool" where
  "isValidUrl e x =
     (if x = [] then False
      else (case urlProtocol e x of
              None \<Rightarrow> False
            | Some p \<Rightarrow> p \<in> set [''http:'', ''https:'']))"

text \<open>
  \<^verbatim>\<open>
  async _generateUniqueShortCode() {
    let attempts = 0;
    const maxAttempts = 10;
    while (attempts < maxAttempts) {
      const shortCode = generateShortCode();
      if (!shortCode || shortCode.trim() === "") { attempts++; continue; }
      const existingUrl = await URL_MODEL.findOne({
        $or: [{ shortCode }, { customAlias: shortCode }] });
      if (!existingUrl) return shortCode;
      attempts++;
    }
    throw new Error("Unable to generate unique short code after multiple attempts");
  }
  \<close>
  The first argument of the loop is \<open>maxAttempts - attempts\<close>; the last is the number of
  calls of the generator so far, returned updated.
\<close>

fun generate_loop :: "nat \<Rightarrow> env \<Rightarrow> url list \<Rightarrow> nat \<Rightarrow> string option \<times> nat" where
  "generate_loop 0 e us k = (None, k)"
| "generate_loop (Suc n) e us k =
     (let c = generateShortCode e k
      in if c = [] \<or> js_trim c = [] then generate_loop n e us (k + 1)
         else if find (code_or_alias c) us = None then (Some c, k + 1)
         else generate_loop n e us (k + 1))"

definition generateUniqueShortCode :: "env \<Rightarrow> store \<Rightarrow> (error + string) \<times> store" where
  "generateUniqueShortCode e s =
     (case generate_loop 10 e (urls s) (draws s) of
        (None, k) \<Rightarrow> (Inl ShortCodeExhausted, s\<lparr>draws := k\<rparr>)
      | (Some c, k) \<Rightarrow> (Inr c, s\<lparr>draws := k\<rparr>))"

text \<open>A string field of the request that is present and not empty (JavaScript truthiness).\<close>

definition truthy :: "string option \<Rightarrow> string option" where
  "truthy a = (case a of None \<Rightarrow> None | Some x \<Rightarrow> if x = [] then None else Some x)"

text \<open>
  The per-owner limit of \<^verbatim>\<open>createUrl\<close>:
  \<^verbatim>\<open>
  if (userId) {
    const userUrlCount = await URL_MODEL.countDocuments({ userId, isActive: true });
    if (userUrlCount >= 20) throw new Error("URL limit reached. You can create up to 20 ...");
  }
  \<close>
\<close>

definition activeCount :: "oid \<Rightarrow> url list \<Rightarrow> nat" where
  "activeCount uid us = length (filter (\<lambda>u. userId u = Some uid \<and> isActive u) us)"

definition limitReached :: "oid option \<Rightarrow> url list \<Rightarrow> bool" where
  "limitReached owner us =
     (case owner of None \<Rightarrow> False | Some uid \<Rightarrow> 20 \<le> activeCount uid us)"

text \<open>
  The duplicate check of \<^verbatim>\<open>createUrl\<close>:
  \<^verbatim>\<open>
  if (userId) {
    const existingUrl = await URL_MODEL.findOne({ originalUrl, userId, isActive: true });
    if (existingUrl) return { url: existingUrl, isNew: false,
                              message: "URL already exists in your account" };
  }
  \<close>
\<close>

definition findExisting :: "string \<Rightarrow> oid option \<Rightarrow> url list \<Rightarrow> url option" where
  "findExisting x owner us =
     (case owner of
        None \<Rightarrow> None
      | Some uid \<Rightarrow> find (\<lambda>u. originalUrl u = x \<and> userId u = Some uid \<and> isActive u) us)"

text \<open>
  The choice of the short code:
  \<^verbatim>\<open>
  if (customAlias) {
    if (!config.allowCustomAlias) throw new Error("Custom aliases are not allowed on this instance");
    const validation = validateShortCode(customAlias);
    if (!validation.isValid) throw new Error(`Invalid custom alias: ...`);
    const existingAlias = await URL_MODEL.findOne({
      $or: [{ shortCode: customAlias }, { customAlias: customAlias }] });
    if (existingAlias) throw new Error("Custom alias is already taken");
    finalShortCode = customAlias;
  } else {
    finalShortCode = await this._generateUniqueShortCode();
  }
  \<close>
\<close>

definition finalShortCode :: "env \<Rightarrow> string option \<Rightarrow> store \<Rightarrow> (error + string) \<times> store" where
  "finalShortCode e alias s =
     (case truthy alias of
        Some a \<Rightarrow>
          if \<not> allowCustomAlias e then (Inl CustomAliasNotAllowed, s)
          else if \<not> fst (validateShortCode a) then
            (Inl (InvalidCustomAlias (snd (validateShortCode a))), s)
          else if find (code_or_alias a) (urls s) \<noteq> None then (Inl CustomAliasTaken, s)
          else (Inr a, s)
      | None \<Rightarrow> generateUniqueShortCode e s)"

text \<open>
  The document \<^verbatim>\<open>createUrl\<close> builds:
  \<^verbatim>\<open>
  let expiresAt = null;
  if (expiresIn) expiresAt = new Date(Date.now() + expiresIn * 24 * 60 * 60 * 1000);
  const urlDoc = new URL_MODEL({ originalUrl, shortCode: finalShortCode,
    title: title?.trim() || null, description: description?.trim() || null,
    userId: userId || null, expiresAt });
  if (customAlias && customAlias.trim()) urlDoc.customAlias = customAlias.trim();
  \<close>
  The other fields take the defaults of the schema. The trim setters of the schema are
  left out: they change no code or alias that passes validation, and URLs are taken
  without surrounding white space.
\<close>

definition newUrlDoc :: "time \<Rightarrow> urlData \<Rightarrow> oid \<Rightarrow> string \<Rightarrow> url" where
  "newUrlDoc now d i code =
     \<lparr> url_id = i,
       originalUrl = d_originalUrl d,
       shortCode = code,
       customAlias =
         (case truthy (d_customAlias d) of
            None \<Rightarrow> None
          | Some a \<Rightarrow> if js_trim a = [] then None else Some (js_trim a)),
       title = trim_or_null (d_title d),
       description = trim_or_null (d_description d),
       userId = d_userId d,
       isActive = True,
       expiresAt =
         (case d_expiresIn d of
            None \<Rightarrow> None
          | Some n \<Rightarrow> if n = 0 then None else Some (now + n * 24 * 60 * 60 * 1000)),
       clickCount = 0,
       uniqueClicks = 0,
       lastClickedAt = None,
       createdAt = now \<rparr>"

text \<open>
  \<^verbatim>\<open>urlDoc.save()\<close> of a new document: the validators of the schema, then the two unique
  indexes (\<^verbatim>\<open>shortCode\<close>, and \<^verbatim>\<open>customAlias\<close> where present), then the insertion.
\<close>

definition opt_length_le :: "nat \<Rightarrow> string option \<Rightarrow> bool" where
  "opt_length_le n t = (case t of None \<Rightarrow> True | Some x \<Rightarrow> length x \<le> n)"

definition schema_valid :: "env \<Rightarrow> url \<Rightarrow> bool" where
  "schema_valid e u =
     (originalUrl u \<noteq> [] \<and> length (originalUrl u) \<le> maxUrlLength e
      \<and> urlProtocol e (originalUrl u) \<noteq> None
      \<and> schema_code_ok (shortCode u)
      \<and> (case customAlias u of None \<Rightarrow> True | Some a \<Rightarrow> schema_code_ok a)
      \<and> opt_length_le 100 (title u)
      \<and> opt_length_le 500 (description u))"

definition index_free :: "url list \<Rightarrow> url \<Rightarrow> bool" where
  "index_free us u =
     (find (\<lambda>v. shortCode v = shortCode u) us = None
      \<and> (case customAlias u of
            None \<Rightarrow> True
          | Some a \<Rightarrow> find (\<lambda>v. customAlias v = Some a) us = None))"

definition insertUrl :: "env \<Rightarrow> url \<Rightarrow> store \<Rightarrow> (error + url) \<times> store" where
  "insertUrl e u s =
     (if \<not> schema_valid e u then (Inl ValidationFailed, s)
      else if \<not> index_free (urls s) u then (Inl DuplicateKey, s)
      else (Inr u, s\<lparr>urls := urls s @ [u]\<rparr>))"

text \<open>
  \<^verbatim>\<open>UrlService.createUrl\<close>, in the order of its checks: URL format, URL length, the
  limit of the owner, the duplicate check, the short code, the save, and the
  \<^verbatim>\<open>urlCount\<close> of the owner. Every \<^verbatim>\<open>throw\<close> is an \<open>Inl\<close>; the store comes back in
  either case.
\<close>

definition createUrl :: "env \<Rightarrow> time \<Rightarrow> urlData \<Rightarrow> store \<Rightarrow> (error + createResult) \<times> store" where
  "createUrl e now d s =
     (if \<not> isValidUrl e (d_originalUrl d) then (Inl InvalidUrlFormat, s)
      else if length (d_originalUrl d) > maxUrlLength e then (Inl (UrlTooLong (maxUrlLength e)), s)
      else if limitReached (d_userId d) (urls s) then (Inl (UrlLimitReached 20), s)
      else
        (case findExisting (d_originalUrl d) (d_userId d) (urls s) of
           Some existingUrl \<Rightarrow> (Inr \<lparr>res_url = existingUrl, isNew = False\<rparr>, s)
         | None \<Rightarrow>
            (case finalShortCode e (d_customAlias d) s of
               (Inl err, s1) \<Rightarrow> (Inl err, s1)
             | (Inr code, s1) \<Rightarrow>
                (case insertUrl e (newUrlDoc now d (nextId s1) code) (s1\<lparr>nextId := nextId s1 + 1\<rparr>) of
                   (Inl err, s2) \<Rightarrow> (Inl err, s2)
                 | (Inr urlDoc, s2) \<Rightarrow>
                    (Inr \<lparr>res_url = urlDoc, isNew = True\<rparr>,
                     (case d_userId d of
                        None \<Rightarrow> s2
                      | Some uid \<Rightarrow> s2\<lparr>users := inc_urlCount uid 1 (users s2)\<rparr>))))))"

text \<open>
  \<^verbatim>\<open>
  async getUrlByShortCode(shortCode, incrementView = false) {
    const url = await URL_MODEL.findOne({
      $or: [{ shortCode }, { customAlias: shortCode }], isActive: true });
    if (!url) return null;
    if (url.isExpired) return null;
    if (incrementView) { url.clickCount += 1; await url.save(); }
    return url;
  }
  \<close>
\<close>

definition getUrlByShortCode :: "time \<Rightarrow> string \<Rightarrow> bool \<Rightarrow> store \<Rightarrow> url option \<times> store" where
  "getUrlByShortCode now code incView s =
     (case find (\<lambda>u. code_or_alias code u \<and> isActive u) (urls s) of
        None \<Rightarrow> (None, s)
      | Some u \<Rightarrow>
          if isExpired now u then (None, s)
          else if incView then
            (Some (incrementView u), s\<lparr>urls := save_doc (incrementView u) (urls s)\<rparr>)
          else (Some u, s))"

text \<open>
  \<^verbatim>\<open>
  async deleteUrl(urlId, userId) {
    const url = await URL_MODEL.findOneAndDelete({ _id: urlId, userId });
    if (!url) throw new Error("URL not found or you don't have permission to delete it");
    await User.findByIdAndUpdate(userId, { $inc: { urlCount: -1 } });
    return true;
  }
  \<close>
\<close>

definition deleteUrl :: "oid \<Rightarrow> oid \<Rightarrow> store \<Rightarrow> (error + bool) \<times> store" where
  "deleteUrl urlId uid s =
     (case find (\<lambda>u. url_id u = urlId \<and> userId u = Some uid) (urls s) of
        None \<Rightarrow> (Inl NotFoundOrNoPermission, s)
      | Some u \<Rightarrow>
          (Inr True,
           s\<lparr>urls := delete_first (\<lambda>u. url_id u = urlId \<and> userId u = Some uid) (urls s),
             users := inc_urlCount uid (- 1) (users s)\<rparr>))"

text \<open>
  The controller of \<^verbatim>\<open>DELETE /api/urls/:id\<close>, documented as "Permanently delete (true) or
  deactivate (false)":
  \<^verbatim>\<open>
  const { hardDelete = false } = req.query;
  const result = await urlService.deleteUrl(id, userId, hardDelete === "true");
  \<close>
  The service method has two parameters, so JavaScript drops the third argument.
\<close>

definition deleteUrl_controller :: "oid \<Rightarrow> oid \<Rightarrow> string option \<Rightarrow> store \<Rightarrow> (error + bool) \<times> store" where
  "deleteUrl_controller urlId uid hardDelete s =
     (let hard = (hardDelete = Some ''true'') in deleteUrl urlId uid s)"

text \<open>
  \<^verbatim>\<open>
  async getPopularUrls(options = {}) {
    const { userId = null, limit = 10, days = 30, minClicks = 1 } = options;
    const query = { isActive: true, clickCount: { $gte: minClicks } };
    if (userId) query.userId = userId;
    if (days) {
      const dateThreshold = new Date(Date.now() - days * 24 * 60 * 60 * 1000);
      query.createdAt = { $gte: dateThreshold };
    }
    return await URL_MODEL.find(query).sort({ clickCount: -1, createdAt: -1 })
      .limit(limit).populate("userId", "name").lean();
  }
  \<close>
  The options are given with the defaults filled in. The sort is the stable sort on the
  key (\<open>clickCount\<close> descending, then \<open>createdAt\<close> descending); \<^verbatim>\<open>limit(0)\<close> is MongoDB's
  "no limit".
\<close>

record popularOptions =
  p_userId :: "oid option"
  p_limit :: nat
  p_days :: int
  p_minClicks :: int

definition popularQuery :: "time \<Rightarrow> popularOptions \<Rightarrow> url \<Rightarrow> bool" where
  "popularQuery now opts u =
     (isActive u \<and> p_minClicks opts \<le> int (clickCount u)
      \<and> (case p_userId opts of None \<Rightarrow> True | Some uid \<Rightarrow> userId u = Some uid)
      \<and> (if p_days opts \<noteq> 0 then now - p_days opts * 24 * 60 * 60 * 1000 \<le> createdAt u
          else True))"

definition popularKey :: "url \<Rightarrow> int \<times> int" where
  "popularKey u = (- int (clickCount u), - createdAt u)"

definition mongo_limit :: "nat \<Rightarrow> 'a list \<Rightarrow> 'a list" where
  "mongo_limit n xs = (if n = 0 then xs else take n xs)"

definition getPopularUrls :: "time \<Rightarrow> popularOptions \<Rightarrow> store \<Rightarrow> url list" where
  "getPopularUrls now opts s =
     mongo_limit (p_limit opts) (sort_key popularKey (filter (popularQuery now opts) (urls s)))"

text \<open>
  \<^verbatim>\<open>UrlService.bulkCreateUrls\<close>. The result counts what the loop did; an entry of
  \<open>successful\<close> is the index, the Link and the \<^verbatim>\<open>isNew\<close> flag of the call of
  \<^verbatim>\<open>createUrl\<close>. \<open>clock i\<close> is \<^verbatim>\<open>Date.now()\<close> while item \<open>i\<close> is processed.
  \<^verbatim>\<open>
  for (let i = 0; i < urlsData.length; i++) {
    const urlData = urlsData[i];
    results.totalProcessed++;
    try {
      if (skipDuplicates) {
        const existingUrl = await URL_MODEL.findOne({
          originalUrl: urlData.originalUrl, userId: userId });
        if (existingUrl) { results.skipped.push(...); results.skippedCount++; continue; }
      }
      const urlWithUser = { ...urlData, userId };
      const result = await this.createUrl(urlWithUser, { generateQR, fetchMetadata });
      results.successful.push(...);
      results.successCount++;
    } catch (error) {
      results.failed.push(...);
      results.errorCount++;
      if (stopOnError) break;
    }
  }
  if (results.successCount > 0) {
    await User.findByIdAndUpdate(userId, { $inc: { urlCount: results.successCount } });
  }
  return results;
  \<close>
\<close>

record bulkOptions =
  skipDuplicates :: bool
  stopOnError :: bool

record bulkResults =
  successful :: "(nat \<times> url \<times> bool) list"
  failed :: "(nat \<times> error) list"
  skipped :: "(nat \<times> url) list"
  totalProcessed :: nat
  successCount :: nat
  errorCount :: nat
  skippedCount :: nat

definition emptyResults :: bulkResults where
  "emptyResults =
     \<lparr> successful = [], failed = [], skipped = [], totalProcessed = 0,
       successCount = 0, errorCount = 0, skippedCount = 0 \<rparr>"

definition findDuplicate :: "bool \<Rightarrow> string \<Rightarrow> oid \<Rightarrow> url list \<Rightarrow> url option" where
  "findDuplicate skip x uid us =
     (if skip then find (\<lambda>u. originalUrl u = x \<and> userId u = Some uid) us else None)"

fun bulk_loop ::
  "env \<Rightarrow> (nat \<Rightarrow> time) \<Rightarrow> oid \<Rightarrow> bulkOptions \<Rightarrow> nat \<Rightarrow> urlData list \<Rightarrow> bulkResults \<Rightarrow> store
     \<Rightarrow> bulkResults \<times> store" where
  "bulk_loop e clock uid opts i [] r s = (r, s)"
| "bulk_loop e clock uid opts i (d # ds) r s =
     (let r1 = r\<lparr>totalProcessed := totalProcessed r + 1\<rparr>
      in case findDuplicate (skipDuplicates opts) (d_originalUrl d) uid (urls s) of
           Some existingUrl \<Rightarrow>
             bulk_loop e clock uid opts (i + 1) ds
               (r1\<lparr>skipped := skipped r1 @ [(i, existingUrl)],
                   skippedCount := skippedCount r1 + 1\<rparr>) s
         | None \<Rightarrow>
            (case createUrl e (clock i) (d\<lparr>d_userId := Some uid\<rparr>) s of
               (Inr res, s1) \<Rightarrow>
                 bulk_loop e clock uid opts (i + 1) ds
                   (r1\<lparr>successful := successful r1 @ [(i, res_url res, isNew res)],
                       successCount := successCount r1 + 1\<rparr>) s1
             | (Inl err, s1) \<Rightarrow>
                 (let r2 = r1\<lparr>failed := failed r1 @ [(i, err)], errorCount := errorCount r1 + 1\<rparr>
                  in if stopOnError opts then (r2, s1)
                     else bulk_loop e clock uid opts (i + 1) ds r2 s1)))"

definition bulkCreateUrls ::
  "env \<Rightarrow> (nat \<Rightarrow> time) \<Rightarrow> urlData list \<Rightarrow> oid \<Rightarrow> bulkOptions \<Rightarrow> store
     \<Rightarrow> (error + bulkResults) \<times> store" where
  "bulkCreateUrls e clock urlsData uid opts s =
     (if urlsData = [] then (Inl UrlsDataRequired, s)
      else if length urlsData > 100 then (Inl (TooManyUrls 100), s)
      else
        (case bulk_loop e clock uid opts 0 urlsData emptyResults s of
           (r, s1) \<Rightarrow>
             (Inr r,
              if successCount r > 0
              then s1\<lparr>users := inc_urlCount uid (int (successCount r)) (users s1)\<rparr>
              else s1)))"

text \<open>The number of Links a bulk call created: the successful entries with \<^verbatim>\<open>isNew\<close>.\<close>

definition newCount :: "bulkResults \<Rightarrow> nat" where
  "newCount r = length (filter (\<lambda>(i, u, n). n) (successful r))"

section \<open>Concrete environment, stores and requests\<close>

text \<open>
  An environment to run the service on: the limits of \<^verbatim>\<open>config.js\<close>, a parser that knows
  three schemes by their prefix, and a generator whose \<open>k\<close>-th code is \<^verbatim>\<open>Kd3\<close> followed
  by \<open>k\<close> letters \<^verbatim>\<open>q\<close>.
\<close>

definition exampleEnv :: env where
  "exampleEnv =
     \<lparr> maxUrlLength = 2048, allowCustomAlias = True,
       urlProtocol = (\<lambda>x. if take 8 x = ''https://'' then Some ''https:''
                          else if take 7 x = ''http://'' then Some ''http:''
                          else if take 6 x = ''ftp://'' then Some ''ftp:'' else None),
       generateShortCode = (\<lambda>k. ''Kd3'' @ replicate k CHR ''q'') \<rparr>"

text \<open>A database with the single user 7 and no Link.\<close>

definition emptyStore :: store where
  "emptyStore = \<lparr> urls = [], users = [(7, 0)], nextId = 1, draws = 0 \<rparr>"

definition launchData :: urlData where
  "launchData =
     \<lparr> d_originalUrl = ''https://example.com'', d_customAlias = Some ''launch'',
       d_title = None, d_description = None, d_userId = Some 7, d_expiresIn = None \<rparr>"

definition launchUrl :: url where
  "launchUrl =
     \<lparr> url_id = 1, originalUrl = ''https://example.com'', shortCode = ''launch'',
       customAlias = Some ''launch'', title = None, description = None, userId = Some 7,
       isActive = True, expiresAt = None, clickCount = 0, uniqueClicks = 0,
       lastClickedAt = None, createdAt = 1000 \<rparr>"

text \<open>The database after user 7 has created the Link \<^verbatim>\<open>launch\<close> at time 1000.\<close>

definition launchStore :: store where
  "launchStore = snd (createUrl exampleEnv 1000 launchData emptyStore)"

text \<open>Requests of user 7 for twenty different pages, and the databases they lead to.\<close>

definition pageData :: "nat \<Rightarrow> urlData" where
  "pageData n =
     \<lparr> d_originalUrl = ''https://example.com/'' @ replicate n CHR ''p'', d_customAlias = None,
       d_title = None, d_description = None, d_userId = Some 7, d_expiresIn = None \<rparr>"

definition createAll :: "urlData list \<Rightarrow> store \<Rightarrow> store" where
  "createAll ds s = foldl (\<lambda>s1 d. snd (createUrl exampleEnv 1000 d s1)) s ds"

definition store19 :: store where
  "store19 = createAll (map pageData [0..<19]) emptyStore"

definition store20 :: store where
  "store20 = snd (createUrl exampleEnv 1000 (pageData 19) store19)"

definition page19Url :: url where
  "page19Url = newUrlDoc 1000 (pageData 19) 20 (generateShortCode exampleEnv 19)"

definition ftpData :: urlData where
  "ftpData =
     \<lparr> d_originalUrl = ''ftp://example.com/file'', d_customAlias = None,
       d_title = None, d_description = None, d_userId = Some 7, d_expiresIn = None \<rparr>"

text \<open>Three Links: one reachable, one deactivated, one expired at time 500.\<close>

definition retiredUrl :: url where
  "retiredUrl = launchUrl\<lparr>url_id := 2, shortCode := ''retired'', customAlias := None, isActive := False\<rparr>"

definition expiredUrl :: url where
  "expiredUrl = launchUrl\<lparr>url_id := 3, shortCode := ''Xp9aa'', customAlias := Some ''promo'', expiresAt := Some 500\<rparr>"

definition resolveStore :: store where
  "resolveStore = \<lparr> urls = [launchUrl, retiredUrl, expiredUrl], users = [(7, 3)], nextId = 4, draws = 1 \<rparr>"

text \<open>
  The recency of the last click in the words of the specification ("recent-click
  recency falls within the last \<open>days\<close> days"), which is also the filter
  \<^verbatim>\<open>lastClickedAt: { $gte: dateThreshold }\<close> of the static \<^verbatim>\<open>getPopularUrls\<close> of the model.
\<close>

definition recentlyClicked :: "time \<Rightarrow> int \<Rightarrow> url \<Rightarrow> bool" where
  "recentlyClicked now days u =
     (case lastClickedAt u of
        None \<Rightarrow> False
      | Some t \<Rightarrow> now - days * 24 * 60 * 60 * 1000 \<le> t)"

text \<open>
  The Link \<^verbatim>\<open>launch\<close> after one preview (\<^verbatim>\<open>getUrlByShortCode("launch", true)\<close>), and the
  same Link forty days after its creation, clicked one minute before.
\<close>

definition previewStore :: store where
  "previewStore = snd (getUrlByShortCode 2000 ''launch'' True launchStore)"

definition clickedStore :: store where
  "clickedStore = launchStore\<lparr>urls := map (recordClick 3455940000 True) (urls launchStore)\<rparr>"

definition monthOptions :: popularOptions where
  "monthOptions = \<lparr> p_userId = Some 7, p_limit = 10, p_days = 30, p_minClicks = 1 \<rparr>"

definition bulkDefaults :: bulkOptions where
  "bulkDefaults = \<lparr> skipDuplicates = True, stopOnError = False \<rparr>"

definition bulkKeepDuplicates :: bulkOptions where
  "bulkKeepDuplicates = \<lparr> skipDuplicates = False, stopOnError = False \<rparr>"

text \<open>
  Two bulk calls of user 7 on the database that holds the Link \<^verbatim>\<open>launch\<close>, at time 2000:
  one with \<open>skipDuplicates = False\<close> for the URL of that Link and a new page, one with the
  defaults for the same URL and two new pages.
\<close>

definition fixedClock :: "nat \<Rightarrow> time" where
  "fixedClock i = 2000"

definition keepOutcome :: "(error + bulkResults) \<times> store" where
  "keepOutcome =
     bulkCreateUrls exampleEnv fixedClock [launchData, pageData 1] 7 bulkKeepDuplicates launchStore"

definition bulkItems :: "urlData list" where
  "bulkItems = [launchData, pageData 1, pageData 2]"

definition bulkResult :: bulkResults where
  "bulkResult =
     (case fst (bulkCreateUrls exampleEnv fixedClock bulkItems 7 bulkDefaults launchStore) of
        Inr r \<Rightarrow> r
      | Inl err \<Rightarrow> emptyResults)"

definition bulkStore :: store where
  "bulkStore = snd (bulkCreateUrls exampleEnv fixedClock bulkItems 7 bulkDefaults launchStore)"


text \<open>
  The Link \<^verbatim>\<open>launch\<close> with no copy loaded; three requests that load it, of which the
  second and the third record a unique click each; and the first request recording its
  click, not unique, on the copy it loaded at the start.
\<close>

definition freshLink :: linkState where
  "freshLink = \<lparr> stored = launchUrl, copies = [] \<rparr>"

definition twoClicks :: "request list" where
  "twoClicks = [Load, Load, On 1 (RecordClick 10 True), Load, On 2 (RecordClick 20 True)]"

definition staleClick :: request where
  "staleClick = On 0 (RecordClick 30 False)"

text \<open>
  The percentage \<open>uniqueClicks / clickCount\<close> rounded to two decimals, in the words of
  the specification: the nearest whole number of hundredths, halves going up.
\<close>

definition percentRounded :: "nat \<Rightarrow> nat \<Rightarrow> real" where
  "percentRounded unique clicks = real_of_int \<lfloor>real unique / real clicks * 100 * 100 + 1 / 2\<rfloor> / 100"

text \<open>A Link with 23 unique clicks out of 160.\<close>

definition tieUrl :: url where
  "tieUrl = launchUrl\<lparr>clickCount := 160, uniqueClicks := 23\<rparr>"

section \<open>Lists and lookups\<close>

lemma find_Some_set: "find P xs = Some x \<Longrightarrow> x \<in> set xs \<and> P x"
  by (induction xs) (auto split: if_splits)

lemma find_None_set: "(find P xs = None) = (\<forall>x\<in>set xs. \<not> P x)"
  by (induction xs) auto

lemma find_append_None:
  "find P xs = None \<Longrightarrow> find P (xs @ [y]) = (if P y then Some y else None)"
  by (induction xs) (auto split: if_splits)

lemma map_of_inc_urlCount:
  "map_of (inc_urlCount uid n us) uid = map_option (\<lambda>c. c + n) (map_of us uid)"
  by (induction us) (auto simp: inc_urlCount_def)

section \<open>Counters of a Link\<close>





lemma step_Load_stored: "stored (step s Load) = stored s"
  by simp








section \<open>Click-through rate\<close>

lemma pow2_powr: "pow2 e = 2 powr real_of_int e"
proof (cases "0 \<le> e")
  case True
  then show ?thesis
    by (simp add: pow2_def powr_realpow[symmetric])
next
  case False
  then have r: "real (nat (- e)) = - real_of_int e"
    by simp
  have "(2::real) ^ nat (- e) = 2 powr real (nat (- e))"
    by (simp add: powr_realpow)
  then have "(2::real) ^ nat (- e) = 2 powr (- real_of_int e)"
    by (simp only: r)
  with False show ?thesis
    by (simp add: pow2_def powr_minus_divide)
qed

lemma pow2_pos: "0 < pow2 e"
  by (simp add: pow2_powr)

lemma pow2_add: "pow2 (a + b) = pow2 a * pow2 b"
  by (simp add: pow2_powr powr_add)

lemma pow2_mono: "a \<le> b \<Longrightarrow> pow2 a \<le> pow2 b"
  by (simp add: pow2_powr)

lemma pow2_0: "pow2 0 = 1"
  by (simp add: pow2_def)

lemma exponent_bounds:
  assumes "0 < x"
  shows "pow2 (exponent x) \<le> x \<and> x < pow2 (exponent x + 1)"
proof -
  have "\<lfloor>log 2 x\<rfloor> = exponent x"
    using assms by (simp add: exponent_def)
  with floor_log_eq_powr_iff[of x 2 "exponent x"] assms
  show ?thesis by (simp add: pow2_powr)
qed

lemma exponent_eq:
  assumes "0 < x" "pow2 e \<le> x" "x < pow2 (e + 1)"
  shows "exponent x = e"
  using floor_log_eq_powr_iff[of x 2 e] assms
  by (simp add: pow2_powr exponent_def)

lemma exponent_mono:
  assumes "0 < x" "x \<le> y"
  shows "exponent x \<le> exponent y"
  using assms unfolding exponent_def
  by (intro floor_mono) simp

lemma round_half_even_lt: "y - real_of_int \<lfloor>y\<rfloor> < 1 / 2 \<Longrightarrow> round_half_even y = \<lfloor>y\<rfloor>"
  by (simp add: round_half_even_def Let_def)

lemma round_half_even_gt: "1 / 2 < y - real_of_int \<lfloor>y\<rfloor> \<Longrightarrow> round_half_even y = \<lfloor>y\<rfloor> + 1"
  by (simp add: round_half_even_def Let_def)

lemma round_half_even_eq:
  "y - real_of_int \<lfloor>y\<rfloor> = 1 / 2 \<Longrightarrow>
     round_half_even y = (if even \<lfloor>y\<rfloor> then \<lfloor>y\<rfloor> else \<lfloor>y\<rfloor> + 1)"
  by (simp add: round_half_even_def Let_def)

lemma round_half_even_cases:
  "round_half_even y = \<lfloor>y\<rfloor> \<or> round_half_even y = \<lfloor>y\<rfloor> + 1"
  by (simp add: round_half_even_def Let_def)

lemma round_half_even_near: "\<bar>real_of_int (round_half_even y) - y\<bar> \<le> 1 / 2"
proof -
  have f: "real_of_int \<lfloor>y\<rfloor> \<le> y" "y < real_of_int \<lfloor>y\<rfloor> + 1"
    by linarith+
  consider "y - real_of_int \<lfloor>y\<rfloor> < 1 / 2" | "1 / 2 < y - real_of_int \<lfloor>y\<rfloor>"
    | "y - real_of_int \<lfloor>y\<rfloor> = 1 / 2"
    by linarith
  then show ?thesis
  proof cases
    case 1
    from round_half_even_lt[OF 1] 1 f show ?thesis by simp
  next
    case 2
    from round_half_even_gt[OF 2] 2 f show ?thesis by simp
  next
    case 3
    from round_half_even_cases[of y] show ?thesis
    proof
      assume "round_half_even y = \<lfloor>y\<rfloor>"
      with 3 show ?thesis by simp
    next
      assume "round_half_even y = \<lfloor>y\<rfloor> + 1"
      with 3 show ?thesis by simp
    qed
  qed
qed

lemma round_half_even_of_int: "round_half_even (real_of_int k) = k"
  by (simp add: round_half_even_def)

lemma round_half_even_mono:
  assumes "y \<le> z"
  shows "round_half_even y \<le> round_half_even z"
proof (cases "\<lfloor>y\<rfloor> = \<lfloor>z\<rfloor>")
  case True
  have lo: "\<lfloor>z\<rfloor> \<le> round_half_even z"
    using round_half_even_cases[of z] by linarith
  have hi: "round_half_even y \<le> \<lfloor>z\<rfloor> + 1"
    using round_half_even_cases[of y] True by linarith
  consider "y - real_of_int \<lfloor>y\<rfloor> < 1 / 2" | "1 / 2 < z - real_of_int \<lfloor>z\<rfloor>"
    | "y - real_of_int \<lfloor>y\<rfloor> = 1 / 2" "z - real_of_int \<lfloor>z\<rfloor> = 1 / 2"
    using assms True by linarith
  then show ?thesis
  proof cases
    case 1
    from round_half_even_lt[OF 1] lo True show ?thesis by simp
  next
    case 2
    from round_half_even_gt[OF 2] hi show ?thesis by simp
  next
    case 3
    from round_half_even_eq[OF 3(1)] round_half_even_eq[OF 3(2)] True show ?thesis by simp
  qed
next
  case False
  with assms have "\<lfloor>y\<rfloor> + 1 \<le> \<lfloor>z\<rfloor>"
    using floor_mono[OF assms] by linarith
  moreover have "round_half_even y \<le> \<lfloor>y\<rfloor> + 1"
    using round_half_even_cases[of y] by linarith
  moreover have "\<lfloor>z\<rfloor> \<le> round_half_even z"
    using round_half_even_cases[of z] by linarith
  ultimately show ?thesis by linarith
qed

text \<open>The scaled significand of a positive number lies between \<open>2 ^ 52\<close> and \<open>2 ^ 53\<close>.\<close>

lemma significand_range:
  assumes "0 < x"
  shows "2 ^ 52 \<le> x * pow2 (52 - exponent x) \<and> x * pow2 (52 - exponent x) \<le> 2 ^ 53"
proof -
  let ?e = "exponent x"
  have a: "pow2 ?e * pow2 (52 - ?e) = pow2 52"
    using pow2_add[of ?e "52 - ?e"] by simp
  have b: "pow2 (?e + 1) * pow2 (52 - ?e) = pow2 53"
    using pow2_add[of "?e + 1" "52 - ?e"] by simp
  have p: "0 < pow2 (52 - ?e)" by (rule pow2_pos)
  from exponent_bounds[OF assms] p
  have "pow2 ?e * pow2 (52 - ?e) \<le> x * pow2 (52 - ?e)"
    "x * pow2 (52 - ?e) \<le> pow2 (?e + 1) * pow2 (52 - ?e)"
    by (simp_all add: mult_right_mono)
  with a b show ?thesis
    by (simp add: pow2_def)
qed

lemma fl64_pos:
  assumes "0 < x"
  shows "fl64 x = real_of_int (round_half_even (x * pow2 (52 - exponent x))) * pow2 (exponent x - 52)"
  using assms by (simp add: fl64_def)

text \<open>How a positive number with a known exponent is rounded.\<close>

lemma fl64_eval:
  assumes "0 < x" "pow2 e \<le> x" "x < pow2 (e + 1)"
  shows "fl64 x = real_of_int (round_half_even (x * pow2 (52 - e))) * pow2 (e - 52)"
  using fl64_pos[OF assms(1)] exponent_eq[OF assms] by simp

lemma fl64_0: "fl64 0 = 0"
  by (simp add: fl64_def)

lemma fl64_between:
  assumes "0 < x"
  shows "pow2 (exponent x) \<le> fl64 x \<and> fl64 x \<le> pow2 (exponent x + 1)"
proof -
  let ?e = "exponent x"
  let ?m = "x * pow2 (52 - ?e)"
  from significand_range[OF assms] have m: "real_of_int (2 ^ 52) \<le> ?m" "?m \<le> real_of_int (2 ^ 53)"
    by simp_all
  from round_half_even_mono[OF m(1)] round_half_even_mono[OF m(2)]
  have r: "2 ^ 52 \<le> round_half_even ?m" "round_half_even ?m \<le> 2 ^ 53"
    by (simp_all only: round_half_even_of_int)
  then have rr: "pow2 52 \<le> real_of_int (round_half_even ?m)" "real_of_int (round_half_even ?m) \<le> pow2 53"
    by (simp_all add: pow2_def)
  have p: "0 < pow2 (?e - 52)" by (rule pow2_pos)
  have a: "pow2 52 * pow2 (?e - 52) = pow2 ?e"
    using pow2_add[of 52 "?e - 52"] by simp
  have b: "pow2 53 * pow2 (?e - 52) = pow2 (?e + 1)"
    using pow2_add[of 53 "?e - 52"] by (simp add: add.commute)
  from rr p have "pow2 52 * pow2 (?e - 52) \<le> real_of_int (round_half_even ?m) * pow2 (?e - 52)"
    "real_of_int (round_half_even ?m) * pow2 (?e - 52) \<le> pow2 53 * pow2 (?e - 52)"
    by (simp_all add: mult_right_mono)
  with a b show ?thesis
    by (simp add: fl64_pos[OF assms])
qed

text \<open>The relative error of one rounding is at most \<open>2 ^ -53\<close>.\<close>

lemma fl64_error:
  assumes "0 < x"
  shows "\<bar>fl64 x - x\<bar> \<le> x / 2 ^ 53"
proof -
  let ?e = "exponent x"
  let ?m = "x * pow2 (52 - ?e)"
  have p: "0 < pow2 (?e - 52)" by (rule pow2_pos)
  have inv: "pow2 (52 - ?e) * pow2 (?e - 52) = 1"
    using pow2_add[of "52 - ?e" "?e - 52"] by (simp add: pow2_0)
  have x: "?m * pow2 (?e - 52) = x"
    using inv by (simp add: mult.assoc)
  have "\<bar>fl64 x - x\<bar> = \<bar>real_of_int (round_half_even ?m) - ?m\<bar> * pow2 (?e - 52)"
  proof -
    have "fl64 x - x = (real_of_int (round_half_even ?m) - ?m) * pow2 (?e - 52)"
      using x by (simp add: fl64_pos[OF assms] algebra_simps)
    then show ?thesis
      using p by (simp add: abs_mult)
  qed
  also have "\<dots> \<le> 1 / 2 * pow2 (?e - 52)"
    using round_half_even_near[of ?m] p by (simp add: mult_right_mono)
  also have "\<dots> = pow2 ?e / 2 ^ 53"
  proof -
    have "pow2 ?e = pow2 52 * pow2 (?e - 52)"
      using pow2_add[of 52 "?e - 52"] by simp
    then show ?thesis by (simp add: pow2_def)
  qed
  also have "\<dots> \<le> x / 2 ^ 53"
    using exponent_bounds[OF assms] by (simp add: divide_right_mono)
  finally show ?thesis .
qed

text \<open>Rounding is monotone on the non-negative numbers.\<close>

lemma fl64_mono:
  assumes "0 \<le> x" "x \<le> y"
  shows "fl64 x \<le> fl64 y"
proof (cases "x = 0")
  case True
  show ?thesis
  proof (cases "y = 0")
    case True
    with \<open>x = 0\<close> show ?thesis by simp
  next
    case False
    with assms True have "0 < y" by simp
    from fl64_between[OF this] pow2_pos[of "exponent y"] True show ?thesis
      by (simp add: fl64_0)
  qed
next
  case False
  with assms have px: "0 < x" and py: "0 < y" by simp_all
  show ?thesis
  proof (cases "exponent x = exponent y")
    case True
    have "x * pow2 (52 - exponent y) \<le> y * pow2 (52 - exponent y)"
      using assms(2) pow2_pos[of "52 - exponent y"] by (simp add: mult_right_mono)
    from round_half_even_mono[OF this] pow2_pos[of "exponent y - 52"] True show ?thesis
      by (simp add: fl64_pos[OF px] fl64_pos[OF py] mult_right_mono)
  next
    case False
    with exponent_mono[OF px assms(2)] have "exponent x + 1 \<le> exponent y" by simp
    from pow2_mono[OF this] fl64_between[OF px] fl64_between[OF py] show ?thesis
      by linarith
  qed
qed

lemma fl64_1: "fl64 1 = 1"
  using fl64_eval[of 1 0] by (simp add: pow2_def round_half_even_def)

lemma fl64_100: "fl64 100 = 100"
  using fl64_eval[of 100 6] by (simp add: pow2_def round_half_even_def)

lemma fl64_10000: "fl64 10000 = 10000"
  using fl64_eval[of 10000 13] by (simp add: pow2_def round_half_even_def)

lemma fl64_range:
  assumes "0 \<le> x" "x \<le> b" "fl64 b = b"
  shows "0 \<le> fl64 x \<and> fl64 x \<le> b"
  using fl64_mono[OF order_refl assms(1)] fl64_mono[OF assms(1,2)] assms(3)
  by (simp add: fl64_0)

lemma fl64_error_le:
  assumes "0 \<le> x" "x \<le> b"
  shows "\<bar>fl64 x - x\<bar> \<le> b / 2 ^ 53"
proof (cases "x = 0")
  case True
  with assms show ?thesis by (simp add: fl64_0)
next
  case False
  with assms have "0 < x" by simp
  from fl64_error[OF this] have "\<bar>fl64 x - x\<bar> \<le> x / 2 ^ 53" .
  also have "x / 2 ^ 53 \<le> b / 2 ^ 53"
    using assms(2) by (simp add: divide_right_mono)
  finally show ?thesis .
qed

lemma math_round_near: "\<bar>real_of_int (math_round x) - x\<bar> \<le> 1 / 2"
  unfolding math_round_def by linarith

lemma math_round_range:
  "0 \<le> x \<Longrightarrow> x \<le> real_of_int n \<Longrightarrow> 0 \<le> math_round x \<and> math_round x \<le> n"
  unfolding math_round_def by (simp add: floor_le_iff le_floor_iff; linarith)

text \<open>
  The rate of a Link with \<open>uniqueClicks \<le> clickCount\<close> and \<open>clickCount\<close> not 0, followed
  through the four roundings.
\<close>

lemma clickThroughRate_accuracy:
  assumes le: "uniqueClicks u \<le> clickCount u" and nz: "clickCount u \<noteq> 0"
  shows "\<exists>r k. clickThroughRate u = Some r \<and> r = fl64 (real_of_int k / 100)
           \<and> 0 \<le> r \<and> r \<le> 100
           \<and> \<bar>r - real (uniqueClicks u) / real (clickCount u) * 100\<bar> \<le> 1 / 200 + 400 / 2 ^ 53"
proof -
  define q0 where "q0 = real (uniqueClicks u) / real (clickCount u)"
  define q where "q = fl64 q0"
  define a where "a = fl64 (q * 100)"
  define b where "b = fl64 (a * 100)"
  define k where "k = math_round b"
  define r where "r = fl64 (real_of_int k / 100)"
  define eps :: real where "eps = 1 / 2 ^ 53"
  have q0: "0 \<le> q0" "q0 \<le> 1"
    using le nz by (simp_all add: q0_def divide_le_eq)
  have q: "0 \<le> q" "q \<le> 1" "\<bar>q - q0\<bar> \<le> eps"
    using fl64_range[OF q0 fl64_1] fl64_error_le[OF q0] by (simp_all add: q_def eps_def)
  have a0: "0 \<le> q * 100" "q * 100 \<le> 100"
    using q by simp_all
  have a: "0 \<le> a" "a \<le> 100" "\<bar>a - q * 100\<bar> \<le> 100 * eps"
    using fl64_range[OF a0 fl64_100] fl64_error_le[OF a0] by (simp_all add: a_def eps_def)
  have b0: "0 \<le> a * 100" "a * 100 \<le> 10000"
    using a by simp_all
  have b: "0 \<le> b" "b \<le> 10000" "\<bar>b - a * 100\<bar> \<le> 10000 * eps"
    using fl64_range[OF b0 fl64_10000] fl64_error_le[OF b0] by (simp_all add: b_def eps_def)
  have b': "b \<le> real_of_int 10000"
    using b(2) by simp
  have k: "0 \<le> k" "k \<le> 10000" "\<bar>real_of_int k - b\<bar> \<le> 1 / 2"
    using math_round_range[OF b(1) b'] math_round_near[of b] by (simp_all add: k_def)
  have r0: "0 \<le> real_of_int k / 100" "real_of_int k / 100 \<le> 100"
    using k by simp_all
  have r: "0 \<le> r" "r \<le> 100" "\<bar>r - real_of_int k / 100\<bar> \<le> 100 * eps"
    using fl64_range[OF r0 fl64_100] fl64_error_le[OF r0] by (simp_all add: r_def eps_def)
  have val: "clickThroughRate u = Some r"
    using nz by (simp add: clickThroughRate_def js_div_def r_def k_def b_def a_def q_def q0_def)
  have "\<bar>r - q0 * 100\<bar> \<le> 1 / 200 + 400 * eps"
    using q(3) a(3) b(3) k(3) r(3) by linarith
  then have "\<bar>r - q0 * 100\<bar> \<le> 1 / 200 + 400 / 2 ^ 53"
    by (simp add: eps_def)
  with val r show ?thesis
    unfolding q0_def r_def by blast
qed

lemma fl64_tie_1: "fl64 (23 / 160) = 2589569785738035 / 18014398509481984"
  using fl64_eval[of "23 / 160" "-3"]
  by (simp add: pow2_def round_half_even_def)

lemma fl64_tie_2:
  "fl64 (2589569785738035 / 18014398509481984 * 100) = 8092405580431359 / 562949953421312"
  using fl64_eval[of "2589569785738035 / 18014398509481984 * 100" 3]
  by (simp add: pow2_def round_half_even_def)

lemma fl64_tie_3:
  "fl64 (8092405580431359 / 562949953421312 * 100) = 6322191859711999 / 4398046511104"
  using fl64_eval[of "8092405580431359 / 562949953421312 * 100" 10]
  by (simp add: pow2_def round_half_even_def)

lemma math_round_tie: "math_round (6322191859711999 / 4398046511104) = 1437"
  by (simp add: math_round_def)

lemma fl64_tie_4: "fl64 (1437 / 100) = 8089590830664253 / 562949953421312"
  using fl64_eval[of "1437 / 100" 3]
  by (simp add: pow2_def round_half_even_def)

lemmas fl64_tie_steps = fl64_tie_1 fl64_tie_2 fl64_tie_3 math_round_tie fl64_tie_4

lemma fl64_2: "fl64 2 = 2"
  using fl64_eval[of 2 1] by (simp add: pow2_def round_half_even_def)

lemma fl64_200: "fl64 200 = 200"
  using fl64_eval[of 200 7] by (simp add: pow2_def round_half_even_def)

lemma fl64_20000: "fl64 20000 = 20000"
  using fl64_eval[of 20000 14] by (simp add: pow2_def round_half_even_def)

lemmas fl64_double_steps = fl64_2 fl64_200 fl64_20000

text \<open>
  Claim C7, as stated, fails in two places. For a Link with 23 unique clicks out of 160
  the percentage is 14.375, which rounded to two decimals is 14.38; the double
  computation gives the product 1437.4999999999998, \<^verbatim>\<open>Math.round\<close> makes 1437 of it, and
  the rate is the double 14.37. And the rate is not kept in \<open>[0, 100]\<close>: the stored Link
  that the stale copy of claim C6 leaves behind has 2 unique clicks out of 1, and its
  rate is 200.
\<close>

theorem clickThroughRate_tie_and_range:
  "clickCount tieUrl = 160 \<and> uniqueClicks tieUrl = 23
   \<and> real (uniqueClicks tieUrl) / real (clickCount tieUrl) * 100 = 14375 / 1000
   \<and> percentRounded 23 160 = 1438 / 100
   \<and> clickThroughRate tieUrl = Some (8089590830664253 / 562949953421312)
   \<and> (8089590830664253 / 562949953421312 :: real) < 14375 / 1000
   \<and> clickCount (stored (step (run_requests freshLink twoClicks) staleClick)) = 1
   \<and> uniqueClicks (stored (step (run_requests freshLink twoClicks) staleClick)) = 2
   \<and> clickThroughRate (stored (step (run_requests freshLink twoClicks) staleClick)) = Some 200"
proof -
  have c: "clickCount tieUrl = 160" "uniqueClicks tieUrl = 23"
    by (simp_all add: tieUrl_def)
  have "clickThroughRate tieUrl
          = js_div (real_of_int (math_round (fl64 (fl64 (fl64 (23 / 160) * 100) * 100)))) 100"
    by (simp add: clickThroughRate_def js_div_def c)
  also have "\<dots> = js_div (real_of_int 1437) 100"
    by (simp only: fl64_tie_steps)
  also have "\<dots> = Some (fl64 (1437 / 100))"
    by (simp add: js_div_def)
  finally have t: "clickThroughRate tieUrl = Some (8089590830664253 / 562949953421312)"
    by (simp only: fl64_tie_steps)
  have s: "clickCount (stored (step (run_requests freshLink twoClicks) staleClick)) = 1"
    "uniqueClicks (stored (step (run_requests freshLink twoClicks) staleClick)) = 2"
    by code_simp+
  have d: "clickThroughRate (stored (step (run_requests freshLink twoClicks) staleClick)) = Some 200"
    by (simp add: clickThroughRate_def js_div_def s fl64_double_steps math_round_def)
  have p: "percentRounded 23 160 = 1438 / 100"
    by (simp add: percentRounded_def)
  from c t s d p show ?thesis
    by simp
qed

text \<open>
  Claim C7, amended. The click-through rate of every Link is a finite Number, never
  \<^verbatim>\<open>NaN\<close> or the result of a division by zero, and it is 0 when \<open>clickCount\<close> is 0. For
  a Link with \<open>uniqueClicks \<le> clickCount\<close> it lies in \<open>[0, 100]\<close>; and when moreover
  \<open>clickCount\<close> is not 0 it is the double nearest to a whole number of hundredths and
  differs from the percentage \<open>uniqueClicks / clickCount * 100\<close> by at most half a
  hundredth and the error of the four roundings, \<open>400 / 2 ^ 53\<close>.
\<close>

theorem clickThroughRate_bounds:
  "(\<exists>r. clickThroughRate u = Some r)
   \<and> (clickCount u = 0 \<longrightarrow> clickThroughRate u = Some 0)
   \<and> (uniqueClicks u \<le> clickCount u \<longrightarrow>
        (\<exists>r. clickThroughRate u = Some r \<and> 0 \<le> r \<and> r \<le> 100))
   \<and> (uniqueClicks u \<le> clickCount u \<and> clickCount u \<noteq> 0 \<longrightarrow>
        (\<exists>r k. clickThroughRate u = Some r \<and> r = fl64 (real_of_int k / 100)
           \<and> \<bar>r - real (uniqueClicks u) / real (clickCount u) * 100\<bar> \<le> 1 / 200 + 400 / 2 ^ 53))"
proof (intro conjI impI)
  show "\<exists>r. clickThroughRate u = Some r"
    by (simp add: clickThroughRate_def js_div_def)
next
  assume "clickCount u = 0"
  then show "clickThroughRate u = Some 0"
    by (simp add: clickThroughRate_def)
next
  assume le: "uniqueClicks u \<le> clickCount u"
  show "\<exists>r. clickThroughRate u = Some r \<and> 0 \<le> r \<and> r \<le> 100"
  proof (cases "clickCount u = 0")
    case True
    then show ?thesis by (simp add: clickThroughRate_def)
  next
    case False
    from clickThroughRate_accuracy[OF le False] show ?thesis by blast
  qed
next
  assume "uniqueClicks u \<le> clickCount u \<and> clickCount u \<noteq> 0"
  then have "uniqueClicks u \<le> clickCount u" "clickCount u \<noteq> 0"
    by simp_all
  from clickThroughRate_accuracy[OF this]
  show "\<exists>r k. clickThroughRate u = Some r \<and> r = fl64 (real_of_int k / 100)
           \<and> \<bar>r - real (uniqueClicks u) / real (clickCount u) * 100\<bar> \<le> 1 / 200 + 400 / 2 ^ 53"
    by blast
qed

theorem clickThroughRate_bounds_witness:
  "clickCount launchUrl = 0 \<and> clickThroughRate launchUrl = Some 0
   \<and> uniqueClicks tieUrl \<le> clickCount tieUrl \<and> clickCount tieUrl \<noteq> 0
   \<and> clickThroughRate tieUrl = Some (8089590830664253 / 562949953421312)
   \<and> (0::real) \<le> 8089590830664253 / 562949953421312
   \<and> (8089590830664253 / 562949953421312 :: real) \<le> 100
   \<and> \<bar>8089590830664253 / 562949953421312 - real (uniqueClicks tieUrl) / real (clickCount tieUrl) * 100\<bar>
        \<le> 1 / 200 + 400 / 2 ^ 53"
proof -
  have z: "clickCount launchUrl = 0"
    by (simp add: launchUrl_def)
  have c: "uniqueClicks tieUrl \<le> clickCount tieUrl" "clickCount tieUrl \<noteq> 0"
    by (simp_all add: tieUrl_def)
  have "clickThroughRate tieUrl
          = js_div (real_of_int (math_round (fl64 (fl64 (fl64 (23 / 160) * 100) * 100)))) 100"
    by (simp add: clickThroughRate_def js_div_def tieUrl_def)
  also have "\<dots> = js_div (real_of_int 1437) 100"
    by (simp only: fl64_tie_steps)
  also have "\<dots> = Some (fl64 (1437 / 100))"
    by (simp add: js_div_def)
  finally have t: "clickThroughRate tieUrl = Some (8089590830664253 / 562949953421312)"
    by (simp only: fl64_tie_steps)
  note b = clickThroughRate_bounds[of tieUrl]
  from mp[OF conjunct1[OF conjunct2[OF conjunct2[OF b]]] c(1)]
  obtain r where r: "clickThroughRate tieUrl = Some r" "0 \<le> r" "r \<le> 100"
    by blast
  from r(1) t have re: "r = 8089590830664253 / 562949953421312"
    by simp
  from r(2,3) have range: "(0::real) \<le> 8089590830664253 / 562949953421312"
    "(8089590830664253 / 562949953421312 :: real) \<le> 100"
    unfolding re by blast+
  from mp[OF conjunct2[OF conjunct2[OF conjunct2[OF b]]] conjI[OF c]]
  obtain r' where r': "clickThroughRate tieUrl = Some r'"
    "\<bar>r' - real (uniqueClicks tieUrl) / real (clickCount tieUrl) * 100\<bar> \<le> 1 / 200 + 400 / 2 ^ 53"
    by blast
  from r'(1) t have re': "r' = 8089590830664253 / 562949953421312"
    by simp
  from r'(2) have near: "\<bar>8089590830664253 / 562949953421312 - real (uniqueClicks tieUrl) / real (clickCount tieUrl) * 100\<bar>
        \<le> 1 / 200 + 400 / 2 ^ 53"
    unfolding re' .
  from mp[OF conjunct1[OF conjunct2[OF clickThroughRate_bounds[of launchUrl]]] z]
  have zero: "clickThroughRate launchUrl = Some 0" .
  from z zero c t range near show ?thesis
    by (intro conjI)
qed

section \<open>Creating a Link\<close>

lemma generateUniqueShortCode_store:
  "generateUniqueShortCode e s = (r, s1) \<Longrightarrow>
     urls s1 = urls s \<and> users s1 = users s \<and> nextId s1 = nextId s"
  by (auto simp: generateUniqueShortCode_def split: prod.splits option.splits)

lemma finalShortCode_store:
  "finalShortCode e a s = (r, s1) \<Longrightarrow>
     urls s1 = urls s \<and> users s1 = users s \<and> nextId s1 = nextId s"
  by (auto simp: finalShortCode_def split: option.splits if_splits
           dest: generateUniqueShortCode_store)

lemma insertUrl_Inl:
  "insertUrl e u s = (Inl err, s1) \<Longrightarrow> s1 = s"
  by (auto simp: insertUrl_def split: if_splits)

lemma insertUrl_Inr:
  "insertUrl e u s = (Inr v, s1) \<Longrightarrow> v = u \<and> s1 = s\<lparr>urls := urls s @ [u]\<rparr>"
  by (auto simp: insertUrl_def split: if_splits)

text \<open>A call that throws has written neither a Link nor a counter.\<close>

lemma createUrl_error_keeps:
  assumes "createUrl e now d s = (Inl err, s1)"
  shows "urls s1 = urls s \<and> users s1 = users s"
  using assms
  by (auto simp: createUrl_def split: if_splits option.splits prod.splits sum.splits
           dest!: finalShortCode_store insertUrl_Inl)

lemma createUrl_existing:
  assumes "isValidUrl e (d_originalUrl d)" "length (d_originalUrl d) \<le> maxUrlLength e"
    "\<not> limitReached (d_userId d) (urls s)"
    "findExisting (d_originalUrl d) (d_userId d) (urls s) = Some ex"
  shows "createUrl e now d s = (Inr \<lparr>res_url = ex, isNew = False\<rparr>, s)"
  using assms by (simp add: createUrl_def)

lemma createUrl_new:
  assumes "createUrl e now d s = (Inr r, s1)" "isNew r"
  shows "findExisting (d_originalUrl d) (d_userId d) (urls s) = None
       \<and> urls s1 = urls s @ [res_url r]
       \<and> originalUrl (res_url r) = d_originalUrl d \<and> userId (res_url r) = d_userId d
       \<and> isActive (res_url r)
       \<and> users s1 = (case d_userId d of None \<Rightarrow> users s | Some uid \<Rightarrow> inc_urlCount uid 1 (users s))"
  using assms
  by (auto simp: createUrl_def newUrlDoc_def split: if_splits option.splits prod.splits sum.splits
           dest!: finalShortCode_store insertUrl_Inr)

lemma createUrl_old:
  assumes "createUrl e now d s = (Inr r, s1)" "\<not> isNew r"
  shows "findExisting (d_originalUrl d) (d_userId d) (urls s) = Some (res_url r) \<and> s1 = s"
  using assms
  by (auto simp: createUrl_def split: if_splits option.splits prod.splits sum.splits)

lemma createUrl_Inr_valid:
  assumes "createUrl e now d s = (Inr r, s1)"
  shows "isValidUrl e (d_originalUrl d) \<and> length (d_originalUrl d) \<le> maxUrlLength e"
  using assms by (auto simp: createUrl_def split: if_splits)

lemma validateShortCode_iff:
  "fst (validateShortCode a) = (3 \<le> length a \<and> length a \<le> 30 \<and> list_all is_code_char a)"
  by (auto simp: validateShortCode_def matches_code_regex_def Let_def)

text \<open>
  Claim C1, as stated, fails where the limit of the owner is reached: user 7 has 19
  active Links and creates a twentieth for a new page, which succeeds with
  \<^verbatim>\<open>isNew = true\<close>; the same call again finds the limit of 20 reached before it looks for
  the existing Link, and throws although the active Link for that page and owner exists.
\<close>

theorem createUrl_duplicate_at_limit:
  "fst (createUrl exampleEnv 1000 (pageData 19) store19) = Inr \<lparr>res_url = page19Url, isNew = True\<rparr>
   \<and> findExisting (d_originalUrl (pageData 19)) (d_userId (pageData 19)) (urls store20) = Some page19Url
   \<and> fst (createUrl exampleEnv 2000 (pageData 19) store20) = Inl (UrlLimitReached 20)
   \<and> urls (snd (createUrl exampleEnv 2000 (pageData 19) store20)) = urls store20"
  by code_simp

text \<open>
  Claim C1, amended. For an authenticated owner: if the \<open>originalUrl\<close> passes the format
  and length checks (as the URL of every Link made by \<open>createUrl\<close> does), an active Link
  with the same (\<open>originalUrl\<close>, owner) pair exists and the owner has fewer than 20 active
  Links, then \<open>createUrl\<close> returns such an existing Link with \<open>isNew = False\<close> and leaves
  the database as it was. And if a call of \<open>createUrl\<close> returned a Link and the owner then
  has fewer than 20 active Links, the same call again returns the same Link with
  \<open>isNew = False\<close> and changes nothing.
\<close>

theorem createUrl_returns_existing:
  assumes "d_userId d = Some uid"
  shows "(isValidUrl e (d_originalUrl d) \<and> length (d_originalUrl d) \<le> maxUrlLength e
            \<and> (\<exists>u\<in>set (urls s). originalUrl u = d_originalUrl d \<and> userId u = Some uid \<and> isActive u)
            \<and> activeCount uid (urls s) < 20 \<longrightarrow>
          (\<exists>ex\<in>set (urls s). originalUrl ex = d_originalUrl d \<and> userId ex = Some uid \<and> isActive ex
             \<and> createUrl e now d s = (Inr \<lparr>res_url = ex, isNew = False\<rparr>, s)))
       \<and> (createUrl e now d s = (Inr r, s1) \<and> activeCount uid (urls s1) < 20 \<longrightarrow>
          createUrl e later d s1 = (Inr \<lparr>res_url = res_url r, isNew = False\<rparr>, s1))"
proof (intro conjI impI)
  assume a: "isValidUrl e (d_originalUrl d) \<and> length (d_originalUrl d) \<le> maxUrlLength e
            \<and> (\<exists>u\<in>set (urls s). originalUrl u = d_originalUrl d \<and> userId u = Some uid \<and> isActive u)
            \<and> activeCount uid (urls s) < 20"
  then have v: "isValidUrl e (d_originalUrl d)" "length (d_originalUrl d) \<le> maxUrlLength e"
    by simp_all
  from a have "find (\<lambda>u. originalUrl u = d_originalUrl d \<and> userId u = Some uid \<and> isActive u) (urls s) \<noteq> None"
    by (auto simp: find_None_set)
  then obtain ex where ex: "findExisting (d_originalUrl d) (d_userId d) (urls s) = Some ex"
    by (auto simp: findExisting_def assms)
  from a have nl: "\<not> limitReached (d_userId d) (urls s)"
    by (simp add: limitReached_def assms)
  from ex have "ex \<in> set (urls s) \<and> originalUrl ex = d_originalUrl d \<and> userId ex = Some uid \<and> isActive ex"
    by (auto simp: findExisting_def assms dest: find_Some_set)
  with createUrl_existing[OF v nl ex, of now]
  show "\<exists>ex\<in>set (urls s). originalUrl ex = d_originalUrl d \<and> userId ex = Some uid \<and> isActive ex
             \<and> createUrl e now d s = (Inr \<lparr>res_url = ex, isNew = False\<rparr>, s)"
    by blast
next
  assume b: "createUrl e now d s = (Inr r, s1) \<and> activeCount uid (urls s1) < 20"
  then have nl: "\<not> limitReached (d_userId d) (urls s1)"
    by (simp add: limitReached_def assms)
  note v = createUrl_Inr_valid[OF conjunct1[OF b]]
  have "findExisting (d_originalUrl d) (d_userId d) (urls s1) = Some (res_url r)"
  proof (cases "isNew r")
    case True
    from createUrl_new[OF conjunct1[OF b] True] show ?thesis
      by (simp add: findExisting_def assms find_append_None)
  next
    case False
    from createUrl_old[OF conjunct1[OF b] False] show ?thesis by simp
  qed
  from createUrl_existing[OF conjunct1[OF v] conjunct2[OF v] nl this]
  show "createUrl e later d s1 = (Inr \<lparr>res_url = res_url r, isNew = False\<rparr>, s1)" .
qed

theorem createUrl_returns_existing_witness:
  "d_userId launchData = Some 7
   \<and> createUrl exampleEnv 1000 launchData emptyStore = (Inr \<lparr>res_url = launchUrl, isNew = True\<rparr>, launchStore)
   \<and> activeCount 7 (urls launchStore) < 20
   \<and> createUrl exampleEnv 2000 launchData launchStore = (Inr \<lparr>res_url = launchUrl, isNew = False\<rparr>, launchStore)
   \<and> isValidUrl exampleEnv (d_originalUrl launchData)
   \<and> length (d_originalUrl launchData) \<le> maxUrlLength exampleEnv
   \<and> urls launchStore = [launchUrl]
   \<and> createUrl exampleEnv 3000 launchData launchStore = (Inr \<lparr>res_url = launchUrl, isNew = False\<rparr>, launchStore)"
proof -
  have h: "d_userId launchData = Some 7"
    by code_simp
  have first: "createUrl exampleEnv 1000 launchData emptyStore
                 = (Inr \<lparr>res_url = launchUrl, isNew = True\<rparr>, launchStore)"
    by code_simp
  have below: "activeCount 7 (urls launchStore) < 20"
    by code_simp
  have v: "isValidUrl exampleEnv (d_originalUrl launchData)"
    "length (d_originalUrl launchData) \<le> maxUrlLength exampleEnv"
    by code_simp+
  have us: "urls launchStore = [launchUrl]"
    by code_simp
  have ex: "\<exists>u\<in>set (urls launchStore).
              originalUrl u = d_originalUrl launchData \<and> userId u = Some 7 \<and> isActive u"
    by code_simp
  note t = createUrl_returns_existing[OF h, of exampleEnv emptyStore 1000
             "\<lparr>res_url = launchUrl, isNew = True\<rparr>" launchStore 2000]
  from mp[OF conjunct2[OF t] conjI[OF first below]]
  have again: "createUrl exampleEnv 2000 launchData launchStore
          = (Inr \<lparr>res_url = launchUrl, isNew = False\<rparr>, launchStore)"
    by simp
  note t2 = createUrl_returns_existing[OF h, of exampleEnv launchStore 3000]
  from mp[OF conjunct1[OF t2] conjI[OF v(1) conjI[OF v(2) conjI[OF ex below]]]]
  have third: "createUrl exampleEnv 3000 launchData launchStore
          = (Inr \<lparr>res_url = launchUrl, isNew = False\<rparr>, launchStore)"
    by (simp add: us)
  from h first below again v us third show ?thesis
    by simp
qed

text \<open>
  Claim C4, as stated, fails for a request that repeats an active Link of its owner:
  the duplicate check comes before the alias is looked at. User 7 owns the active Link
  \<^verbatim>\<open>launch\<close> for \<^verbatim>\<open>https://example.com\<close>. A second request for the same URL with the alias
  \<^verbatim>\<open>launch\<close>, which that Link uses, does not fail: it returns the existing Link with
  \<open>isNew = False\<close>. So does a request for the same URL with the malformed alias \<^verbatim>\<open>no\<close>.
\<close>

theorem createUrl_alias_after_duplicate:
  "find (code_or_alias ''launch'') (urls launchStore) = Some launchUrl
   \<and> createUrl exampleEnv 2000 launchData launchStore
        = (Inr \<lparr>res_url = launchUrl, isNew = False\<rparr>, launchStore)
   \<and> fst (validateShortCode ''no'') = False
   \<and> createUrl exampleEnv 2000 (launchData\<lparr>d_customAlias := Some ''no''\<rparr>) launchStore
        = (Inr \<lparr>res_url = launchUrl, isNew = False\<rparr>, launchStore)"
  by code_simp

text \<open>
  Claim C4, amended. Take a create request with a non-empty \<open>customAlias\<close> that reaches
  the alias step: its URL passes the format and length checks, the limit of the owner
  is not reached, the owner has no active Link for the same URL, and custom aliases are
  allowed. If the alias is malformed (\<open>validateShortCode\<close> refuses it), creation fails
  with the invalid-alias error. If the alias is well-formed and some Link uses that
  string as its \<open>shortCode\<close> or its \<open>customAlias\<close>, creation fails with the alias-taken
  error, whatever the \<open>originalUrl\<close> of that Link. In both cases the database is as it
  was, and the alias is well-formed exactly when it has 3 to 30 characters, all from
  \<^verbatim>\<open>[A-Za-z0-9_-]\<close>.
\<close>

theorem createUrl_alias_errors:
  assumes "isValidUrl e (d_originalUrl d)" and "length (d_originalUrl d) \<le> maxUrlLength e"
    and "\<not> limitReached (d_userId d) (urls s)"
    and "findExisting (d_originalUrl d) (d_userId d) (urls s) = None"
    and "allowCustomAlias e" and "d_customAlias d = Some a" and "a \<noteq> []"
  shows "(\<not> fst (validateShortCode a) \<longrightarrow>
            createUrl e now d s = (Inl (InvalidCustomAlias (snd (validateShortCode a))), s))
       \<and> (fst (validateShortCode a) \<and> (\<exists>u\<in>set (urls s). shortCode u = a \<or> customAlias u = Some a) \<longrightarrow>
            createUrl e now d s = (Inl CustomAliasTaken, s))
       \<and> fst (validateShortCode a) = (3 \<le> length a \<and> length a \<le> 30 \<and> list_all is_code_char a)"
proof (intro conjI impI)
  assume "\<not> fst (validateShortCode a)"
  with assms show "createUrl e now d s = (Inl (InvalidCustomAlias (snd (validateShortCode a))), s)"
    by (simp add: createUrl_def finalShortCode_def truthy_def)
next
  assume h: "fst (validateShortCode a) \<and> (\<exists>u\<in>set (urls s). shortCode u = a \<or> customAlias u = Some a)"
  then have "find (code_or_alias a) (urls s) \<noteq> None"
    by (auto simp: find_None_set code_or_alias_def)
  with h assms show "createUrl e now d s = (Inl CustomAliasTaken, s)"
    by (auto simp: createUrl_def finalShortCode_def truthy_def)
next
  show "fst (validateShortCode a) = (3 \<le> length a \<and> length a \<le> 30 \<and> list_all is_code_char a)"
    by (rule validateShortCode_iff)
qed

theorem createUrl_alias_errors_witness:
  "createUrl exampleEnv 2000 (launchData\<lparr>d_originalUrl := ''https://different.com''\<rparr>) launchStore
     = (Inl CustomAliasTaken, launchStore)
   \<and> createUrl exampleEnv 2000
       (launchData\<lparr>d_originalUrl := ''https://different.com'', d_customAlias := Some ''a b''\<rparr>) launchStore
     = (Inl (InvalidCustomAlias [''Short code contains invalid characters'']), launchStore)"
proof -
  let ?d = "launchData\<lparr>d_originalUrl := ''https://different.com''\<rparr>"
  let ?m = "launchData\<lparr>d_originalUrl := ''https://different.com'', d_customAlias := Some ''a b''\<rparr>"
  have hd: "isValidUrl exampleEnv (d_originalUrl ?d)"
    "length (d_originalUrl ?d) \<le> maxUrlLength exampleEnv"
    "\<not> limitReached (d_userId ?d) (urls launchStore)"
    "findExisting (d_originalUrl ?d) (d_userId ?d) (urls launchStore) = None"
    "allowCustomAlias exampleEnv" "d_customAlias ?d = Some ''launch''" "''launch'' \<noteq> []"
    by code_simp+
  have hm: "isValidUrl exampleEnv (d_originalUrl ?m)"
    "length (d_originalUrl ?m) \<le> maxUrlLength exampleEnv"
    "\<not> limitReached (d_userId ?m) (urls launchStore)"
    "findExisting (d_originalUrl ?m) (d_userId ?m) (urls launchStore) = None"
    "allowCustomAlias exampleEnv" "d_customAlias ?m = Some ''a b''" "''a b'' \<noteq> []"
    by code_simp+
  have taken: "fst (validateShortCode ''launch'')"
    "\<exists>u\<in>set (urls launchStore). shortCode u = ''launch'' \<or> customAlias u = Some ''launch''"
    by code_simp+
  have bad: "\<not> fst (validateShortCode ''a b'')"
    "snd (validateShortCode ''a b'') = [''Short code contains invalid characters'']"
    by code_simp+
  from createUrl_alias_errors[OF hd, of 2000] taken
  have 1: "createUrl exampleEnv 2000 ?d launchStore = (Inl CustomAliasTaken, launchStore)"
    by blast
  from createUrl_alias_errors[OF hm, of 2000] bad
  have 2: "createUrl exampleEnv 2000 ?m launchStore
             = (Inl (InvalidCustomAlias [''Short code contains invalid characters'']), launchStore)"
    by simp
  from 1 2 show ?thesis by simp
qed

text \<open>
  Claim C5, as stated, fails for a request whose URL is refused: the format and length
  checks come before the limit. User 7 has 20 active Links and asks for an
  \<^verbatim>\<open>ftp\<close> URL; the call fails with the invalid-URL error, not with the limit error.
\<close>

theorem createUrl_invalid_url_at_limit:
  "activeCount 7 (urls store20) = 20
   \<and> createUrl exampleEnv 2000 ftpData store20 = (Inl InvalidUrlFormat, store20)"
  by code_simp

text \<open>
  Claim C5, amended. For an owner who has 20 or more active Links and a request whose
  \<open>originalUrl\<close> passes the format and length checks, \<open>createUrl\<close> fails with the limit
  error, which carries the limit 20, and the database is as it was: no Link is created
  and no counter changes.
\<close>

theorem createUrl_limit_reached:
  assumes "isValidUrl e (d_originalUrl d)" and "length (d_originalUrl d) \<le> maxUrlLength e"
    and "d_userId d = Some uid" and "20 \<le> activeCount uid (urls s)"
  shows "createUrl e now d s = (Inl (UrlLimitReached 20), s)"
  using assms by (simp add: createUrl_def limitReached_def)

theorem createUrl_limit_reached_witness:
  "isValidUrl exampleEnv (d_originalUrl (pageData 30))
   \<and> length (d_originalUrl (pageData 30)) \<le> maxUrlLength exampleEnv
   \<and> d_userId (pageData 30) = Some 7
   \<and> 20 \<le> activeCount 7 (urls store20)
   \<and> createUrl exampleEnv 2000 (pageData 30) store20 = (Inl (UrlLimitReached 20), store20)"
proof -
  have h: "isValidUrl exampleEnv (d_originalUrl (pageData 30))"
    "length (d_originalUrl (pageData 30)) \<le> maxUrlLength exampleEnv"
    "d_userId (pageData 30) = Some 7"
    "20 \<le> activeCount 7 (urls store20)"
    by code_simp+
  from createUrl_limit_reached[OF h, of 2000] h show ?thesis by simp
qed

section \<open>Resolving a code\<close>

text \<open>
  Claim C2. \<open>getUrlByShortCode\<close> looks the string up as a \<open>shortCode\<close> and as a
  \<open>customAlias\<close>. Whatever it returns is a Link of the database that carries the string
  in one of the two fields, is active, and is not expired (with its \<open>clickCount\<close> raised
  by 1 if a view increment was asked for). If every Link that carries the string is
  inactive or expired, the result is not-found and the database is unchanged, the same
  for both reasons; the result is also not-found when the Link the query matched is
  expired. If exactly one Link carries the string, in either field, and it is active
  and not expired, that Link is returned.
\<close>

theorem getUrlByShortCode_resolve:
  "(\<forall>v. fst (getUrlByShortCode now code incView s) = Some v \<longrightarrow>
        (\<exists>u\<in>set (urls s). (shortCode u = code \<or> customAlias u = Some code) \<and> isActive u
            \<and> \<not> isExpired now u \<and> v = (if incView then incrementView u else u)))
   \<and> ((\<forall>u\<in>set (urls s). shortCode u = code \<or> customAlias u = Some code \<longrightarrow>
            \<not> isActive u \<or> isExpired now u) \<longrightarrow>
        getUrlByShortCode now code incView s = (None, s))
   \<and> (\<forall>u. find (\<lambda>u. code_or_alias code u \<and> isActive u) (urls s) = Some u \<and> isExpired now u \<longrightarrow>
        getUrlByShortCode now code incView s = (None, s))
   \<and> (\<forall>u\<in>set (urls s). (shortCode u = code \<or> customAlias u = Some code) \<and> isActive u
          \<and> \<not> isExpired now u
          \<and> (\<forall>v\<in>set (urls s). shortCode v = code \<or> customAlias v = Some code \<longrightarrow> v = u) \<longrightarrow>
        fst (getUrlByShortCode now code incView s) = Some (if incView then incrementView u else u))"
proof (intro conjI allI ballI impI)
  fix v assume "fst (getUrlByShortCode now code incView s) = Some v"
  then show "\<exists>u\<in>set (urls s). (shortCode u = code \<or> customAlias u = Some code) \<and> isActive u
            \<and> \<not> isExpired now u \<and> v = (if incView then incrementView u else u)"
    by (auto simp: getUrlByShortCode_def code_or_alias_def split: option.splits if_splits
             dest!: find_Some_set)
next
  assume "\<forall>u\<in>set (urls s). shortCode u = code \<or> customAlias u = Some code \<longrightarrow>
            \<not> isActive u \<or> isExpired now u"
  then show "getUrlByShortCode now code incView s = (None, s)"
    by (auto simp: getUrlByShortCode_def code_or_alias_def split: option.splits
             dest!: find_Some_set)
next
  fix u assume "find (\<lambda>u. code_or_alias code u \<and> isActive u) (urls s) = Some u \<and> isExpired now u"
  then show "getUrlByShortCode now code incView s = (None, s)"
    by (simp add: getUrlByShortCode_def)
next
  fix u assume u: "u \<in> set (urls s)"
    and h: "(shortCode u = code \<or> customAlias u = Some code) \<and> isActive u
          \<and> \<not> isExpired now u
          \<and> (\<forall>v\<in>set (urls s). shortCode v = code \<or> customAlias v = Some code \<longrightarrow> v = u)"
  from u h have "find (\<lambda>u. code_or_alias code u \<and> isActive u) (urls s) \<noteq> None"
    by (auto simp: find_None_set code_or_alias_def)
  then obtain w where w: "find (\<lambda>u. code_or_alias code u \<and> isActive u) (urls s) = Some w"
    by auto
  from find_Some_set[OF w] h have "w = u"
    by (auto simp: code_or_alias_def)
  with w h show "fst (getUrlByShortCode now code incView s) = Some (if incView then incrementView u else u)"
    by (simp add: getUrlByShortCode_def)
qed

theorem getUrlByShortCode_resolve_witness:
  "getUrlByShortCode 2000 ''retired'' False resolveStore = (None, resolveStore)
   \<and> getUrlByShortCode 2000 ''promo'' False resolveStore = (None, resolveStore)
   \<and> getUrlByShortCode 2000 ''Xp9aa'' False resolveStore = (None, resolveStore)
   \<and> fst (getUrlByShortCode 2000 ''launch'' False resolveStore) = Some launchUrl
   \<and> fst (getUrlByShortCode 2000 ''launch'' True resolveStore) = Some (incrementView launchUrl)"
proof -
  have us: "urls resolveStore = [launchUrl, retiredUrl, expiredUrl]"
    by (simp add: resolveStore_def)
  have retired: "\<forall>u\<in>set (urls resolveStore). shortCode u = ''retired'' \<or> customAlias u = Some ''retired'' \<longrightarrow>
            \<not> isActive u \<or> isExpired 2000 u"
    by code_simp
  have promo: "find (\<lambda>u. code_or_alias ''promo'' u \<and> isActive u) (urls resolveStore) = Some expiredUrl
            \<and> isExpired 2000 expiredUrl"
    by code_simp
  have code: "\<forall>u\<in>set (urls resolveStore). shortCode u = ''Xp9aa'' \<or> customAlias u = Some ''Xp9aa'' \<longrightarrow>
            \<not> isActive u \<or> isExpired 2000 u"
    by code_simp
  have launch: "launchUrl \<in> set (urls resolveStore)"
    "(shortCode launchUrl = ''launch'' \<or> customAlias launchUrl = Some ''launch'') \<and> isActive launchUrl
          \<and> \<not> isExpired 2000 launchUrl
          \<and> (\<forall>v\<in>set (urls resolveStore). shortCode v = ''launch'' \<or> customAlias v = Some ''launch'' \<longrightarrow> v = launchUrl)"
    by code_simp+
  note r = getUrlByShortCode_resolve[of 2000 "''retired''" False resolveStore]
  note p = getUrlByShortCode_resolve[of 2000 "''promo''" False resolveStore]
  note x = getUrlByShortCode_resolve[of 2000 "''Xp9aa''" False resolveStore]
  note l = getUrlByShortCode_resolve[of 2000 "''launch''" False resolveStore]
  note v = getUrlByShortCode_resolve[of 2000 "''launch''" True resolveStore]
  have 1: "getUrlByShortCode 2000 ''retired'' False resolveStore = (None, resolveStore)"
    by (rule mp[OF conjunct1[OF conjunct2[OF r]] retired])
  have 2: "getUrlByShortCode 2000 ''promo'' False resolveStore = (None, resolveStore)"
    by (rule mp[OF spec[OF conjunct1[OF conjunct2[OF conjunct2[OF p]]]] promo])
  have 3: "getUrlByShortCode 2000 ''Xp9aa'' False resolveStore = (None, resolveStore)"
    by (rule mp[OF conjunct1[OF conjunct2[OF x]] code])
  from mp[OF bspec[OF conjunct2[OF conjunct2[OF conjunct2[OF l]]] launch(1)] launch(2)]
  have 4: "fst (getUrlByShortCode 2000 ''launch'' False resolveStore) = Some launchUrl"
    by (simp only: if_False)
  from mp[OF bspec[OF conjunct2[OF conjunct2[OF conjunct2[OF v]]] launch(1)] launch(2)]
  have 5: "fst (getUrlByShortCode 2000 ''launch'' True resolveStore) = Some (incrementView launchUrl)"
    by (simp only: if_True)
  show ?thesis
    by (intro conjI) (rule 1 2 3 4 5)+
qed

section \<open>Deleting a Link\<close>

text \<open>
  Claim C3. The claim asks that a delete with \<open>hard=false\<close> keeps the record and sets
  \<open>isActive=false\<close>. The code removes the record in every case: user 7 owns the Link
  with id 1 and deletes it through the controller with no \<^verbatim>\<open>hardDelete\<close> parameter, and
  with \<^verbatim>\<open>hardDelete=false\<close>; both times the Link is gone from the collection and the
  \<open>urlCount\<close> of the user has gone from 1 to 0, exactly as with \<^verbatim>\<open>hardDelete=true\<close>.
\<close>

theorem deleteUrl_soft_removes_record:
  "urls launchStore = [launchUrl] \<and> users launchStore = [(7, 1)]
   \<and> deleteUrl_controller 1 7 None launchStore
        = (Inr True, \<lparr>urls = [], users = [(7, 0)], nextId = 2, draws = 0\<rparr>)
   \<and> deleteUrl_controller 1 7 (Some ''false'') launchStore
        = (Inr True, \<lparr>urls = [], users = [(7, 0)], nextId = 2, draws = 0\<rparr>)
   \<and> deleteUrl_controller 1 7 (Some ''true'') launchStore
        = (Inr True, \<lparr>urls = [], users = [(7, 0)], nextId = 2, draws = 0\<rparr>)"
  by code_simp

section \<open>Well-formed aliases\<close>

text \<open>
  Claim C8. The alias \<^verbatim>\<open>my-link\<close> has seven characters, all from \<^verbatim>\<open>[A-Za-z0-9_-]\<close>.
  \<open>validateShortCode\<close> and the validators of the schema accept it, but the request
  schema of the create route, which runs first, refuses it: it admits letters and
  digits only. The same holds for \<^verbatim>\<open>my_link\<close>.
\<close>

theorem joi_rejects_hyphen_alias:
  "list_all is_code_char ''my-link'' \<and> length ''my-link'' = 7
   \<and> validateShortCode ''my-link'' = (True, [])
   \<and> schema_code_ok ''my-link''
   \<and> joi_customAlias (Some ''my-link'') = False
   \<and> validateShortCode ''my_link'' = (True, [])
   \<and> joi_customAlias (Some ''my_link'') = False"
  by code_simp

section \<open>Popular Links\<close>

lemma popularKey_le:
  "(popularKey a \<le> popularKey b) =
     (clickCount b < clickCount a \<or> (clickCount b = clickCount a \<and> createdAt b \<le> createdAt a))"
  by (auto simp: popularKey_def less_eq_prod_def)

lemma sort_key_popularKey_sorted:
  "sorted_wrt (\<lambda>a b. clickCount b < clickCount a
                    \<or> (clickCount b = clickCount a \<and> createdAt b \<le> createdAt a))
     (sort_key popularKey xs)"
proof -
  have "sorted (map popularKey (sort_key popularKey xs))"
    by (rule sorted_sort_key)
  then show ?thesis
    by (simp add: sorted_map popularKey_le)
qed

lemma mongo_limit_sorted: "sorted_wrt R xs \<Longrightarrow> sorted_wrt R (mongo_limit n xs)"
  by (simp add: mongo_limit_def sorted_wrt_take)

lemma mongo_limit_subset: "set (mongo_limit n xs) \<subseteq> set xs"
  by (auto simp: mongo_limit_def dest: in_set_takeD)

text \<open>
  Claim C9, as stated, fails: the service filters on the creation date of the Link, not
  on the time of its last click. The Link \<^verbatim>\<open>launch\<close>, created at time 1000, has never
  been clicked (\<open>lastClickedAt\<close> is null); the query for the last 30 days with
  \<open>minClicks = 0\<close> returns it, and so does the query with \<open>minClicks = 1\<close> once the Link
  has been previewed (\<open>clickCount = 1\<close>, still no click). Forty days after its creation the same Link,
  clicked one minute before the query, is active with \<open>clickCount = 1\<close> and a click well
  inside the last 30 days; the query leaves it out.
\<close>

theorem getPopularUrls_ignores_last_click:
  "getPopularUrls 3000 (monthOptions\<lparr>p_minClicks := 0\<rparr>) launchStore = [launchUrl]
   \<and> lastClickedAt launchUrl = None
   \<and> recentlyClicked 3000 30 launchUrl = False
   \<and> getPopularUrls 3000 monthOptions previewStore = [incrementView launchUrl]
   \<and> lastClickedAt (incrementView launchUrl) = None
   \<and> recentlyClicked 3000 30 (incrementView launchUrl) = False
   \<and> urls clickedStore = [recordClick 3455940000 True launchUrl]
   \<and> isActive (recordClick 3455940000 True launchUrl)
   \<and> clickCount (recordClick 3455940000 True launchUrl) = 1
   \<and> recentlyClicked 3456000000 30 (recordClick 3455940000 True launchUrl)
   \<and> getPopularUrls 3456000000 monthOptions clickedStore = []"
  by code_simp

text \<open>
  Claim C9, amended. For every query the popular-URLs operation returns only Links of
  the database that are active, have \<open>clickCount\<close> at least \<open>minClicks\<close>, belong to the
  owner when one is given, and, when \<open>days\<close> is not 0, were created within the last
  \<open>days\<close> days (for \<open>days = 0\<close> there is no date filter). The result is sorted descending
  by \<open>clickCount\<close>, ties descending by \<open>createdAt\<close>. For a limit of at least 1 it is the
  first \<open>limit\<close> entries of the unlimited result, so its length is the smaller of
  \<open>limit\<close> and the number of Links that pass the filter.
\<close>

theorem getPopularUrls_created_recently:
  "(\<forall>u\<in>set (getPopularUrls now opts s).
       u \<in> set (urls s) \<and> isActive u \<and> p_minClicks opts \<le> int (clickCount u)
       \<and> (p_days opts \<noteq> 0 \<longrightarrow> now - p_days opts * 24 * 60 * 60 * 1000 \<le> createdAt u)
       \<and> (\<forall>uid. p_userId opts = Some uid \<longrightarrow> userId u = Some uid))
   \<and> sorted_wrt (\<lambda>a b. clickCount b < clickCount a
                      \<or> (clickCount b = clickCount a \<and> createdAt b \<le> createdAt a))
        (getPopularUrls now opts s)
   \<and> (0 < p_limit opts \<longrightarrow>
        getPopularUrls now opts s = take (p_limit opts) (getPopularUrls now (opts\<lparr>p_limit := 0\<rparr>) s)
        \<and> length (getPopularUrls now opts s)
            = min (p_limit opts) (length (filter (popularQuery now opts) (urls s))))"
proof (intro conjI ballI impI)
  fix u assume "u \<in> set (getPopularUrls now opts s)"
  then have "u \<in> set (filter (popularQuery now opts) (urls s))"
    using mongo_limit_subset[of "p_limit opts" "sort_key popularKey (filter (popularQuery now opts) (urls s))"]
    by (auto simp: getPopularUrls_def)
  then have u: "u \<in> set (urls s)" "popularQuery now opts u"
    by auto
  show "u \<in> set (urls s)"
    by (rule u)
  show "isActive u"
    using u by (simp add: popularQuery_def)
  show "p_minClicks opts \<le> int (clickCount u)"
    using u by (simp add: popularQuery_def)
  show "now - p_days opts * 24 * 60 * 60 * 1000 \<le> createdAt u" if "p_days opts \<noteq> 0"
    using u that by (simp add: popularQuery_def)
  show "\<forall>uid. p_userId opts = Some uid \<longrightarrow> userId u = Some uid"
    using u by (auto simp: popularQuery_def)
next
  show "sorted_wrt (\<lambda>a b. clickCount b < clickCount a
                      \<or> (clickCount b = clickCount a \<and> createdAt b \<le> createdAt a))
        (getPopularUrls now opts s)"
    unfolding getPopularUrls_def by (rule mongo_limit_sorted) (rule sort_key_popularKey_sorted)
next
  assume "0 < p_limit opts"
  then show "getPopularUrls now opts s = take (p_limit opts) (getPopularUrls now (opts\<lparr>p_limit := 0\<rparr>) s)"
    by (simp add: getPopularUrls_def mongo_limit_def popularQuery_def[abs_def])
next
  assume "0 < p_limit opts"
  then show "length (getPopularUrls now opts s)
            = min (p_limit opts) (length (filter (popularQuery now opts) (urls s)))"
    by (simp add: getPopularUrls_def mongo_limit_def min.commute)
qed

text \<open>
  The three Links of the example database after clicks: \<^verbatim>\<open>launch\<close> with 2 clicks, the
  deactivated Link with 9, the third with 5. With a limit of 1 and no date filter only
  the most clicked active Link is returned.
\<close>

theorem getPopularUrls_created_recently_witness:
  "0 < p_limit (monthOptions\<lparr>p_limit := 1, p_days := 0\<rparr>)
   \<and> getPopularUrls 3000 (monthOptions\<lparr>p_limit := 1, p_days := 0\<rparr>)
        (resolveStore\<lparr>urls := [launchUrl\<lparr>clickCount := 2\<rparr>, retiredUrl\<lparr>clickCount := 9\<rparr>,
                                 expiredUrl\<lparr>clickCount := 5\<rparr>]\<rparr>)
       = [expiredUrl\<lparr>clickCount := 5\<rparr>]
   \<and> length (getPopularUrls 3000 (monthOptions\<lparr>p_limit := 1, p_days := 0\<rparr>)
        (resolveStore\<lparr>urls := [launchUrl\<lparr>clickCount := 2\<rparr>, retiredUrl\<lparr>clickCount := 9\<rparr>,
                                 expiredUrl\<lparr>clickCount := 5\<rparr>]\<rparr>)) = 1
   \<and> getPopularUrls 3000 (monthOptions\<lparr>p_limit := 0, p_days := 0\<rparr>)
        (resolveStore\<lparr>urls := [launchUrl\<lparr>clickCount := 2\<rparr>, retiredUrl\<lparr>clickCount := 9\<rparr>,
                                 expiredUrl\<lparr>clickCount := 5\<rparr>]\<rparr>)
       = [expiredUrl\<lparr>clickCount := 5\<rparr>, launchUrl\<lparr>clickCount := 2\<rparr>]"
proof -
  let ?s = "resolveStore\<lparr>urls := [launchUrl\<lparr>clickCount := 2\<rparr>, retiredUrl\<lparr>clickCount := 9\<rparr>,
                                 expiredUrl\<lparr>clickCount := 5\<rparr>]\<rparr>"
  let ?o = "monthOptions\<lparr>p_limit := 1, p_days := 0\<rparr>"
  have lim: "0 < p_limit ?o"
    by code_simp
  have all: "getPopularUrls 3000 (monthOptions\<lparr>p_limit := 0, p_days := 0\<rparr>) ?s
               = [expiredUrl\<lparr>clickCount := 5\<rparr>, launchUrl\<lparr>clickCount := 2\<rparr>]"
    by code_simp
  have n: "length (filter (popularQuery 3000 ?o) (urls ?s)) = 2"
    by code_simp
  have o: "?o\<lparr>p_limit := 0\<rparr> = monthOptions\<lparr>p_limit := 0, p_days := 0\<rparr>"
    by code_simp
  note t = mp[OF conjunct2[OF conjunct2[OF getPopularUrls_created_recently[of 3000 ?o ?s]]] lim]
  from conjunct1[OF t] have 1: "getPopularUrls 3000 ?o ?s = [expiredUrl\<lparr>clickCount := 5\<rparr>]"
    by (simp only: o all) code_simp
  from conjunct2[OF t] have 2: "length (getPopularUrls 3000 ?o ?s) = 1"
    by (simp only: n) code_simp
  show ?thesis
    by (intro conjI) (rule lim 1 2 all)+
qed

section \<open>Bulk creation\<close>

lemma createUrl_step:
  assumes "createUrl e now d s = (res, s1)" and "d_userId d = Some uid"
    and "map_of (users s) uid = Some c"
  shows "length (urls s1)
           = length (urls s) + (case res of Inr r \<Rightarrow> if isNew r then 1 else 0 | Inl err \<Rightarrow> 0)
       \<and> map_of (users s1) uid
           = Some (c + (case res of Inr r \<Rightarrow> if isNew r then 1 else 0 | Inl err \<Rightarrow> 0))"
proof (cases res)
  case (Inl err)
  with createUrl_error_keeps[of e now d s err s1] assms show ?thesis
    by simp
next
  case (Inr r)
  show ?thesis
  proof (cases "isNew r")
    case True
    with createUrl_new[of e now d s r s1] assms Inr show ?thesis
      by (simp add: map_of_inc_urlCount)
  next
    case False
    with createUrl_old[of e now d s r s1] assms Inr show ?thesis
      by simp
  qed
qed

lemma createUrl_no_duplicate_new:
  assumes "createUrl e now d s = (Inr r, s1)" and "d_userId d = Some uid"
    and "find (\<lambda>u. originalUrl u = d_originalUrl d \<and> userId u = Some uid) (urls s) = None"
  shows "isNew r"
proof (rule ccontr)
  assume "\<not> isNew r"
  from createUrl_old[OF assms(1) this]
  have "find (\<lambda>u. originalUrl u = d_originalUrl d \<and> userId u = Some uid \<and> isActive u) (urls s)
          = Some (res_url r)"
    by (simp add: findExisting_def assms(2))
  from find_Some_set[OF this] assms(3) show False
    by (auto simp: find_None_set)
qed

lemma newCount_simps:
  "newCount (r\<lparr>totalProcessed := t\<rparr>) = newCount r"
  "newCount (r\<lparr>skipped := sk\<rparr>) = newCount r"
  "newCount (r\<lparr>skippedCount := k\<rparr>) = newCount r"
  "newCount (r\<lparr>failed := f\<rparr>) = newCount r"
  "newCount (r\<lparr>errorCount := k\<rparr>) = newCount r"
  "newCount (r\<lparr>successCount := k\<rparr>) = newCount r"
  "newCount (r\<lparr>successful := successful r @ [(i, u, b)]\<rparr>) = newCount r + (if b then 1 else 0)"
  by (simp_all add: newCount_def)

text \<open>
  What the loop adds: every new Link is one more document and one more in the
  \<open>urlCount\<close> of the user; every success counts in \<open>successCount\<close>, and with
  \<open>skipDuplicates\<close> every success is a new Link.
\<close>

lemma bulk_loop_counts:
  assumes "bulk_loop e clock uid opts i ds r s = (r1, s1)" and "map_of (users s) uid = Some c"
  shows "length (urls s1) + newCount r = length (urls s) + newCount r1
       \<and> map_of (users s1) uid = Some (c + int (newCount r1) - int (newCount r))
       \<and> newCount r1 + successCount r \<le> newCount r + successCount r1
       \<and> (skipDuplicates opts \<longrightarrow> newCount r1 + successCount r = newCount r + successCount r1)"
  using assms
proof (induction ds arbitrary: i r s c)
  case Nil
  then show ?case by simp
next
  case (Cons d ds)
  let ?r1 = "r\<lparr>totalProcessed := totalProcessed r + 1\<rparr>"
  show ?case
  proof (cases "findDuplicate (skipDuplicates opts) (d_originalUrl d) uid (urls s)")
    case (Some ex)
    with Cons.prems have
      "bulk_loop e clock uid opts (i + 1) ds
         (?r1\<lparr>skipped := skipped ?r1 @ [(i, ex)], skippedCount := skippedCount ?r1 + 1\<rparr>) s = (r1, s1)"
      by (simp add: Let_def)
    from Cons.IH[OF this Cons.prems(2)] show ?thesis
      by (simp add: newCount_simps)
  next
    case None
    obtain res s2 where cr: "createUrl e (clock i) (d\<lparr>d_userId := Some uid\<rparr>) s = (res, s2)"
      by (cases "createUrl e (clock i) (d\<lparr>d_userId := Some uid\<rparr>) s") auto
    from createUrl_step[OF cr _ Cons.prems(2)]
    have st: "length (urls s2)
                = length (urls s) + (case res of Inr r \<Rightarrow> if isNew r then 1 else 0 | Inl err \<Rightarrow> 0)"
      "map_of (users s2) uid
                = Some (c + (case res of Inr r \<Rightarrow> if isNew r then 1 else 0 | Inl err \<Rightarrow> 0))"
      by simp_all
    show ?thesis
    proof (cases res)
      case (Inr cres)
      let ?r2 = "?r1\<lparr>successful := successful ?r1 @ [(i, res_url cres, isNew cres)],
                       successCount := successCount ?r1 + 1\<rparr>"
      from Cons.prems(1) None cr Inr have
        "bulk_loop e clock uid opts (i + 1) ds ?r2 s2 = (r1, s1)"
        by (simp add: Let_def)
      from Cons.IH[OF this st(2)]
      have ih: "length (urls s1) + newCount ?r2 = length (urls s2) + newCount r1"
        "map_of (users s1) uid
           = Some (c + (case res of Inr r \<Rightarrow> if isNew r then 1 else 0 | Inl err \<Rightarrow> 0)
                     + int (newCount r1) - int (newCount ?r2))"
        "newCount r1 + successCount ?r2 \<le> newCount ?r2 + successCount r1"
        "skipDuplicates opts \<longrightarrow> newCount r1 + successCount ?r2 = newCount ?r2 + successCount r1"
        by simp_all
      have nc: "newCount ?r2 = newCount r + (if isNew cres then 1 else 0)"
        by (simp add: newCount_def)
      have new: "skipDuplicates opts \<Longrightarrow> isNew cres"
      proof -
        assume "skipDuplicates opts"
        with None have
          "find (\<lambda>u. originalUrl u = d_originalUrl d \<and> userId u = Some uid) (urls s) = None"
          by (simp add: findDuplicate_def)
        with createUrl_no_duplicate_new[of e "clock i" "d\<lparr>d_userId := Some uid\<rparr>" s cres s2 uid] cr Inr
        show "isNew cres" by simp
      qed
      from ih st(1) nc Inr new show ?thesis
        by (auto split: if_splits)
    next
      case (Inl err)
      let ?r2 = "?r1\<lparr>failed := failed ?r1 @ [(i, err)], errorCount := errorCount ?r1 + 1\<rparr>"
      show ?thesis
      proof (cases "stopOnError opts")
        case True
        with Cons.prems(1) None cr Inl have "r1 = ?r2" "s1 = s2"
          by (simp_all add: Let_def)
        with st Inl show ?thesis
          by (simp add: newCount_simps)
      next
        case False
        with Cons.prems(1) None cr Inl have
          "bulk_loop e clock uid opts (i + 1) ds ?r2 s2 = (r1, s1)"
          by (simp add: Let_def)
        from Cons.IH[OF this st(2)] st(1) Inl show ?thesis
          by (simp add: newCount_simps)
      qed
    qed
  qed
qed

text \<open>
  Claim C10, as stated, fails when duplicates are not skipped: a success that returns
  an existing Link is counted once more after the loop. User 7 owns the Link \<^verbatim>\<open>launch\<close>
  and has \<open>urlCount = 1\<close>; a bulk call with \<open>skipDuplicates = false\<close> for that URL and a new
  page creates one Link and raises \<open>urlCount\<close> to 4, by 3 and not by 2.
\<close>

theorem bulkCreateUrls_counts_duplicates:
  "urlCount launchStore 7 = Some 1
   \<and> length (urls launchStore) = 1
   \<and> skipDuplicates bulkKeepDuplicates = False
   \<and> length (urls (snd keepOutcome)) = 2
   \<and> map_sum id newCount (fst keepOutcome) = Inr 1
   \<and> map_sum id successCount (fst keepOutcome) = Inr 2
   \<and> urlCount (snd keepOutcome) 7 = Some 4"
  by code_simp

text \<open>
  Claim C10, amended. For every \<open>bulkCreateUrls\<close> call that returns, by a user who has
  a \<open>urlCount\<close>: with \<open>k\<close> the number of Links the call created (the collection has grown
  by exactly \<open>k\<close>), the \<open>urlCount\<close> of the user has grown by \<open>k + successCount\<close>, once per
  created Link inside \<open>createUrl\<close> and once more by \<open>successCount\<close> after the loop, and
  \<open>successCount\<close> is at least \<open>k\<close>. With \<open>skipDuplicates\<close> on, which is the default,
  \<open>successCount\<close> is \<open>k\<close> and the growth is \<open>2k\<close>.
\<close>

theorem bulkCreateUrls_urlCount:
  assumes "bulkCreateUrls e clock urlsData uid opts s = (Inr r, s1)"
    and "urlCount s uid = Some c"
  shows "length (urls s1) = length (urls s) + newCount r
       \<and> urlCount s1 uid = Some (c + int (newCount r) + int (successCount r))
       \<and> newCount r \<le> successCount r
       \<and> (skipDuplicates opts \<longrightarrow> successCount r = newCount r
             \<and> urlCount s1 uid = Some (c + 2 * int (newCount r)))"
proof -
  obtain s2 where loop: "bulk_loop e clock uid opts 0 urlsData emptyResults s = (r, s2)"
    and s1: "s1 = (if successCount r > 0
              then s2\<lparr>users := inc_urlCount uid (int (successCount r)) (users s2)\<rparr> else s2)"
    using assms(1)
    by (auto simp: bulkCreateUrls_def split: if_splits prod.splits)
  have e0: "newCount emptyResults = 0" "successCount emptyResults = 0"
    by (simp_all add: newCount_def emptyResults_def)
  from bulk_loop_counts[OF loop, of c] assms(2) e0
  have b: "length (urls s2) = length (urls s) + newCount r"
    "map_of (users s2) uid = Some (c + int (newCount r))"
    "newCount r \<le> successCount r"
    "skipDuplicates opts \<longrightarrow> newCount r = successCount r"
    by (simp_all add: urlCount_def)
  from b s1 show ?thesis
    by (auto simp: urlCount_def map_of_inc_urlCount)
qed

text \<open>
  With the defaults: the duplicate is skipped, two Links are created, and \<open>urlCount\<close>
  goes from 1 to 5 while the user owns 3 Links.
\<close>

theorem bulkCreateUrls_urlCount_witness:
  "bulkCreateUrls exampleEnv fixedClock bulkItems 7 bulkDefaults launchStore = (Inr bulkResult, bulkStore)
   \<and> urlCount launchStore 7 = Some 1
   \<and> skipDuplicates bulkDefaults
   \<and> newCount bulkResult = 2
   \<and> successCount bulkResult = 2
   \<and> length (urls bulkStore) = 3
   \<and> urlCount bulkStore 7 = Some 5"
proof -
  have run: "bulkCreateUrls exampleEnv fixedClock bulkItems 7 bulkDefaults launchStore
               = (Inr bulkResult, bulkStore)"
    by code_simp
  have c: "urlCount launchStore 7 = Some 1"
    by code_simp
  have k: "newCount bulkResult = 2" "skipDuplicates bulkDefaults" "length (urls launchStore) = 1"
    by code_simp+
  note t = bulkCreateUrls_urlCount[OF run c]
  from conjunct1[OF t] k have 1: "length (urls bulkStore) = 3"
    by simp
  from mp[OF conjunct2[OF conjunct2[OF conjunct2[OF t]]] k(2)] k(1)
  have 2: "successCount bulkResult = 2" "urlCount bulkStore 7 = Some 5"
    by simp_all
  from run c k 1 2 show ?thesis
    by simp
qed

end
